theory Spec2Isabelle
  imports Complex_Main "HOL-Library.Monad_Syntax"
begin

section \<open>Tensors\<close>

text \<open>
  A tensor is a shape and a flat, row-major buffer of values, as in the framework the
  module is written against. Values are idealised as real numbers. A failure raised by
  the framework or by Python (wrong rank, incompatible shapes, division by zero) is the
  result \<open>None\<close>.
\<close>

record tensor =
  dims :: "nat list"
  vals :: "real list"

definition well_shaped :: "tensor \<Rightarrow> bool" where
  "well_shaped x = (length (vals x) = prod_list (dims x))"

fun flat_index :: "nat list \<Rightarrow> nat list \<Rightarrow> nat" where
  "flat_index (d # ds) (i # is) = i * prod_list ds + flat_index ds is"
| "flat_index _ _ = 0"

fun unflat :: "nat list \<Rightarrow> nat \<Rightarrow> nat list" where
  "unflat [] k = []"
| "unflat (d # ds) k = (k div prod_list ds) # unflat ds (k mod prod_list ds)"

definition elem :: "tensor \<Rightarrow> nat list \<Rightarrow> real" where
  "elem x is = vals x ! flat_index (dims x) is"

definition mk :: "nat list \<Rightarrow> (nat list \<Rightarrow> real) \<Rightarrow> tensor" where
  "mk ds f = \<lparr>dims = ds, vals = map (\<lambda>k. f (unflat ds k)) [0..<prod_list ds]\<rparr>"

definition mk3 :: "nat \<Rightarrow> nat \<Rightarrow> nat \<Rightarrow> (nat \<Rightarrow> nat \<Rightarrow> nat \<Rightarrow> real) \<Rightarrow> tensor" where
  "mk3 b m n f = mk [b, m, n] (\<lambda>is. f (is ! 0) (is ! 1) (is ! 2))"

definition mk4 ::
  "nat \<Rightarrow> nat \<Rightarrow> nat \<Rightarrow> nat \<Rightarrow> (nat \<Rightarrow> nat \<Rightarrow> nat \<Rightarrow> nat \<Rightarrow> real) \<Rightarrow> tensor" where
  "mk4 b h w c f = mk [b, h, w, c] (\<lambda>is. f (is ! 0) (is ! 1) (is ! 2) (is ! 3))"

definition map_vals :: "(real \<Rightarrow> real) \<Rightarrow> tensor \<Rightarrow> tensor" where
  "map_vals g x = x\<lparr>vals := map g (vals x)\<rparr>"

section \<open>Framework layers\<close>

record conv_weights =
  kernel :: "nat \<Rightarrow> nat \<Rightarrow> nat \<Rightarrow> nat \<Rightarrow> real"
  bias :: "nat \<Rightarrow> real"

record norm_weights =
  gamma :: "nat \<Rightarrow> real"
  beta :: "nat \<Rightarrow> real"

text \<open>\<open>keras.layers.ZeroPadding2D((p, p))\<close>: \<open>p\<close> rows and columns of zeros on every
  spatial edge of a rank-4 tensor.\<close>

definition ZeroPadding2D :: "nat \<Rightarrow> tensor \<Rightarrow> tensor option" where
  "ZeroPadding2D p x =
     (case dims x of
        [b, h, w, c] \<Rightarrow>
          Some (mk4 b (h + 2 * p) (w + 2 * p) c
            (\<lambda>n i j ch. if p \<le> i \<and> i < h + p \<and> p \<le> j \<and> j < w + p
                         then elem x [n, i - p, j - p, ch] else 0))
      | _ \<Rightarrow> None)"

text \<open>The framework's output length of an unpadded (``valid'') convolution:
  \<open>output_length = input_length - filter_size + 1\<close>, then
  \<open>(output_length + stride - 1) // stride\<close> with Python's floor division. A negative
  length is rejected; an input shorter than the filter by less than the stride gives
  length 0, an empty result.\<close>

definition conv_output_length :: "nat \<Rightarrow> nat \<Rightarrow> nat \<Rightarrow> nat option" where
  "conv_output_length input_length filter_size stride =
     (let output_length = int input_length - int filter_size + 1;
          l = (output_length + int stride - 1) div int stride
      in if l < 0 then None else Some (nat l))"

text \<open>\<open>keras.layers.Conv2D(filters, kernel_size, strides = (stride, stride))\<close> with the
  default padding \<open>valid\<close>, on a rank-4 channels-last tensor. The layer creates its
  kernel for the number of input channels it first sees, so the weights are indexed
  functions. The constructor rejects a kernel size, a stride or a number of filters that
  is not positive, and the convolution rejects an input without channels.\<close>

definition Conv2D :: "nat \<Rightarrow> nat \<Rightarrow> nat \<Rightarrow> conv_weights \<Rightarrow> tensor \<Rightarrow> tensor option" where
  "Conv2D filters kernel_size stride W x =
     (case dims x of
        [b, h, w, c] \<Rightarrow>
          if kernel_size = 0 \<or> stride = 0 \<or> filters = 0 \<or> c = 0 then None
          else (case (conv_output_length h kernel_size stride,
                      conv_output_length w kernel_size stride) of
                  (Some h', Some w') \<Rightarrow>
                    Some (mk4 b h' w' filters
                      (\<lambda>n i j co.
                         (\<Sum>di\<leftarrow>[0..<kernel_size]. \<Sum>dj\<leftarrow>[0..<kernel_size]. \<Sum>ci\<leftarrow>[0..<c].
                            elem x [n, i * stride + di, j * stride + dj, ci] * kernel W di dj ci co)
                         + bias W co))
                | _ \<Rightarrow> None)
      | _ \<Rightarrow> None)"

section \<open>The module: PaddedConv2D\<close>

definition PaddedConv2D ::
  "nat \<Rightarrow> nat \<Rightarrow> nat \<Rightarrow> nat \<Rightarrow> conv_weights \<Rightarrow> tensor \<Rightarrow> tensor option" where
  "PaddedConv2D channels kernel_size padding stride W x =
     ZeroPadding2D padding x \<bind> Conv2D channels kernel_size stride W"


section \<open>Further framework primitives\<close>

text \<open>\<open>tfa.layers.GroupNormalization\<close> with its defaults \<open>groups = 32\<close>, \<open>axis = -1\<close>:
  the channel count must be at least the number of groups and a multiple of it; mean and
  (population) variance are taken per batch entry and group over all positions and the
  channels of the group. The module only applies it to rank-4 tensors.\<close>

definition GroupNormalization :: "real \<Rightarrow> norm_weights \<Rightarrow> tensor \<Rightarrow> tensor option" where
  "GroupNormalization epsilon W x =
     (case dims x of
        [b, h, w, c] \<Rightarrow>
          if c < 32 \<or> c mod 32 \<noteq> 0 then None
          else
            let gs = c div 32;
                cnt = real (h * w * gs);
                mean = (\<lambda>n g. (\<Sum>i\<leftarrow>[0..<h]. \<Sum>j\<leftarrow>[0..<w]. \<Sum>r\<leftarrow>[0..<gs].
                                   elem x [n, i, j, g * gs + r]) / cnt);
                var = (\<lambda>n g. (\<Sum>i\<leftarrow>[0..<h]. \<Sum>j\<leftarrow>[0..<w]. \<Sum>r\<leftarrow>[0..<gs].
                                  (elem x [n, i, j, g * gs + r] - mean n g)\<^sup>2) / cnt)
            in Some (mk4 b h w c
                 (\<lambda>n i j ch. (elem x [n, i, j, ch] - mean n (ch div gs))
                                / sqrt (var n (ch div gs) + epsilon) * gamma W ch + beta W ch))
      | _ \<Rightarrow> None)"

definition swish :: "real \<Rightarrow> real" where
  "swish v = v * (1 / (1 + exp (- v)))"

definition Activation_swish :: "tensor \<Rightarrow> tensor" where
  "Activation_swish x = map_vals swish x"

text \<open>\<open>keras.layers.UpSampling2D(size = (sh, sw))\<close>, nearest-neighbour by default. The
  resize it is built on rejects an image of height or width zero.\<close>

definition UpSampling2D :: "nat \<times> nat \<Rightarrow> tensor \<Rightarrow> tensor option" where
  "UpSampling2D sz x =
     (case dims x of
        [b, h, w, c] \<Rightarrow>
          if fst sz = 0 \<or> snd sz = 0 \<or> h = 0 \<or> w = 0 then None
          else Some (mk4 b (h * fst sz) (w * snd sz) c
                 (\<lambda>n i j ch. elem x [n, i div fst sz, j div snd sz, ch]))
      | _ \<Rightarrow> None)"

text \<open>\<open>tf.reshape\<close>: the buffer is kept, the shape replaced. At most one requested size
  is \<open>-1\<close> and is inferred from the number of elements; when the requested sizes hold a
  zero, the zero dimensions of the input are left out of that count.\<close>

definition tf_reshape :: "tensor \<Rightarrow> int list \<Rightarrow> tensor option" where
  "tf_reshape x sizes =
     (if (\<exists>s \<in> set sizes. s < - 1) \<or> 1 < length (filter (\<lambda>s. s = - 1) sizes) then None
      else
        let sizes_has_zero = (0 \<in> set sizes);
            product = prod_list (map nat (filter (\<lambda>s. 0 < s) sizes));
            input_num_elements =
              prod_list (filter (\<lambda>d. 0 < d \<or> \<not> sizes_has_zero) (dims x));
            input_has_zero = (sizes_has_zero \<and> 0 \<in> set (dims x));
            missing = input_num_elements div product;
            shape = map (\<lambda>s. if s = - 1 then missing else nat s) sizes
        in if - 1 \<in> set sizes \<and> \<not> input_has_zero \<and> product * missing \<noteq> input_num_elements
           then None
           else if prod_list shape \<noteq> prod_list (dims x) then None
           else Some \<lparr>dims = shape, vals = vals x\<rparr>)"

fun index_of :: "nat \<Rightarrow> nat list \<Rightarrow> nat" where
  "index_of a [] = 0"
| "index_of a (p # ps) = (if a = p then 0 else Suc (index_of a ps))"

text \<open>\<open>keras.layers.Permute(p)\<close>: \<open>p\<close> permutes the axes after the batch axis, counted
  from 1.\<close>

definition Permute :: "nat list \<Rightarrow> tensor \<Rightarrow> tensor option" where
  "Permute p x =
     (let ds = dims x; perm = 0 # p
      in if length ds \<noteq> length perm \<or> sort p \<noteq> [1..<length perm] then None
         else Some (mk (map (\<lambda>a. ds ! a) perm)
                (\<lambda>is. elem x (map (\<lambda>a. is ! index_of a perm) [0..<length ds]))))"

text \<open>The batched matrix product \<open>a @ b\<close> of two rank-3 tensors (the only rank at which
  the module uses it); batch sizes broadcast.\<close>

definition matmul :: "tensor \<Rightarrow> tensor \<Rightarrow> tensor option" where
  "matmul a b =
     (case dims a of
        [ba, m, k] \<Rightarrow>
          (case dims b of
             [bb, k', n] \<Rightarrow>
               if k \<noteq> k' \<or> \<not> (ba = bb \<or> ba = 1 \<or> bb = 1) then None
               else Some (mk3 (if ba = 1 then bb else ba) m n
                      (\<lambda>t i j. \<Sum>l\<leftarrow>[0..<k]. elem a [if ba = 1 then 0 else t, i, l]
                                               * elem b [if bb = 1 then 0 else t, l, j]))
           | _ \<Rightarrow> None)
      | _ \<Rightarrow> None)"

text \<open>\<open>keras.activations.softmax\<close> along the last axis; rank 1 is rejected.\<close>

definition softmax :: "tensor \<Rightarrow> tensor option" where
  "softmax x =
     (if length (dims x) < 2 then None
      else Some (mk (dims x)
             (\<lambda>is. exp (elem x is)
                    / (\<Sum>l\<leftarrow>[0..<last (dims x)]. exp (elem x (butlast is @ [l]))))))"

text \<open>Elementwise \<open>+\<close> with broadcasting: shapes are aligned at the last axis, and two
  sizes fit when they are equal or one of them is 1.\<close>

definition broadcast_dims :: "nat list \<Rightarrow> nat list \<Rightarrow> nat list option" where
  "broadcast_dims dx dy =
     (let r = max (length dx) (length dy);
          px = replicate (r - length dx) 1 @ dx;
          py = replicate (r - length dy) 1 @ dy
      in if list_all2 (\<lambda>a b. a = b \<or> a = 1 \<or> b = 1) px py
         then Some (map2 (\<lambda>a b. if a = 1 then b else a) px py) else None)"

definition bidx :: "nat list \<Rightarrow> nat list \<Rightarrow> nat list" where
  "bidx ds is = map2 (\<lambda>d i. if d = 1 then 0 else i) ds (drop (length is - length ds) is)"

definition tf_add :: "tensor \<Rightarrow> tensor \<Rightarrow> tensor option" where
  "tf_add x y =
     (case broadcast_dims (dims x) (dims y) of
        None \<Rightarrow> None
      | Some ds \<Rightarrow> Some (mk ds (\<lambda>is. elem x (bidx (dims x) is) + elem y (bidx (dims y) is))))"

section \<open>The module: AttentionBlock\<close>

record attention_weights =
  attn_norm :: norm_weights
  attn_q :: conv_weights
  attn_k :: conv_weights
  attn_v :: conv_weights
  attn_proj_out :: conv_weights

text \<open>Python's \<open>c ** (-0.5)\<close> on an integer \<open>c\<close>; zero raises \<open>ZeroDivisionError\<close>.\<close>

definition pow_neg_half :: "nat \<Rightarrow> real option" where
  "pow_neg_half c = (if c = 0 then None else Some (real c powr (- 0.5)))"

definition AttentionBlock :: "nat \<Rightarrow> attention_weights \<Rightarrow> tensor \<Rightarrow> tensor option" where
  "AttentionBlock channels W x =
     do {
       h' \<leftarrow> GroupNormalization 0.00001 (attn_norm W) x;
       q \<leftarrow> PaddedConv2D channels 1 0 1 (attn_q W) h';
       k \<leftarrow> PaddedConv2D channels 1 0 1 (attn_k W) h';
       v \<leftarrow> PaddedConv2D channels 1 0 1 (attn_v W) h';
       (case dims q of
          [b, h, w, c] \<Rightarrow>
            do {
              q \<leftarrow> tf_reshape q [- 1, int (h * w), int c];
              k \<leftarrow> Permute [3, 1, 2] k;
              k \<leftarrow> tf_reshape k [- 1, int c, int (h * w)];
              w' \<leftarrow> matmul q k;
              scale \<leftarrow> pow_neg_half c;
              w' \<leftarrow> softmax (map_vals (\<lambda>e. e * scale) w');
              v \<leftarrow> Permute [3, 1, 2] v;
              v \<leftarrow> tf_reshape v [- 1, int c, int (h * w)];
              w' \<leftarrow> Permute [2, 1] w';
              h' \<leftarrow> matmul v w';
              h' \<leftarrow> Permute [2, 1] h';
              h' \<leftarrow> tf_reshape h' [- 1, int h, int w, int c];
              p \<leftarrow> PaddedConv2D channels 1 0 1 (attn_proj_out W) h';
              tf_add x p
            }
        | _ \<Rightarrow> None)
     }"

section \<open>The module: ResnetBlock\<close>

record resnet_weights =
  norm1 :: norm_weights
  conv1 :: conv_weights
  norm2 :: norm_weights
  conv2 :: conv_weights
  nin :: conv_weights

definition nin_shortcut :: "nat \<Rightarrow> nat \<Rightarrow> conv_weights \<Rightarrow> tensor \<Rightarrow> tensor option" where
  "nin_shortcut in_channels out_channels Wn =
     (if in_channels \<noteq> out_channels then PaddedConv2D out_channels 1 0 1 Wn
      else (\<lambda>x. Some x))"

definition ResnetBlock :: "nat \<Rightarrow> nat \<Rightarrow> resnet_weights \<Rightarrow> tensor \<Rightarrow> tensor option" where
  "ResnetBlock in_channels out_channels W x =
     do {
       n1 \<leftarrow> GroupNormalization 0.00001 (norm1 W) x;
       h \<leftarrow> PaddedConv2D out_channels 3 1 1 (conv1 W) (Activation_swish n1);
       n2 \<leftarrow> GroupNormalization 0.00001 (norm2 W) h;
       h \<leftarrow> PaddedConv2D out_channels 3 1 1 (conv2 W) (Activation_swish n2);
       s \<leftarrow> nin_shortcut in_channels out_channels (nin W) x;
       tf_add s h
     }"

section \<open>The module: Decoder and Encoder\<close>

type_synonym layer = "tensor \<Rightarrow> tensor option"

text \<open>\<open>keras.Sequential\<close>: the layers are applied in order, each to the output of the
  one before.\<close>

fun Sequential :: "layer list \<Rightarrow> layer" where
  "Sequential [] x = Some x"
| "Sequential (l # ls) x = l x \<bind> Sequential ls"

text \<open>The learned parameters of a model, by the position of the layer in its list.\<close>

record model_weights =
  conv_w :: "nat \<Rightarrow> conv_weights"
  norm_w :: "nat \<Rightarrow> norm_weights"
  resnet_w :: "nat \<Rightarrow> resnet_weights"
  attn_w :: "nat \<Rightarrow> attention_weights"

text \<open>The two \<open>keras.layers.Lambda\<close> bodies: \<open>lambda x: 1 / 0.18215 * x\<close> and
  \<open>lambda x: x[..., :4] * 0.18215\<close>.\<close>

definition decoder_lambda :: layer where
  "decoder_lambda x = Some (map_vals (\<lambda>e. 1 / 0.18215 * e) x)"

definition encoder_lambda :: layer where
  "encoder_lambda x =
     (case dims x of
        [] \<Rightarrow> None
      | ds \<Rightarrow> Some (mk (butlast ds @ [min 4 (last ds)]) (\<lambda>is. elem x is * 0.18215)))"

definition Decoder_layers :: "model_weights \<Rightarrow> layer list" where
  "Decoder_layers \<theta> =
     [ decoder_lambda,
       PaddedConv2D 4 1 0 1 (conv_w \<theta> 1),
       PaddedConv2D 512 3 1 1 (conv_w \<theta> 2),
       ResnetBlock 512 512 (resnet_w \<theta> 3),
       AttentionBlock 512 (attn_w \<theta> 4),
       ResnetBlock 512 512 (resnet_w \<theta> 5),
       ResnetBlock 512 512 (resnet_w \<theta> 6),
       ResnetBlock 512 512 (resnet_w \<theta> 7),
       ResnetBlock 512 512 (resnet_w \<theta> 8),
       UpSampling2D (2, 2),
       PaddedConv2D 512 3 1 1 (conv_w \<theta> 10),
       ResnetBlock 512 512 (resnet_w \<theta> 11),
       ResnetBlock 512 512 (resnet_w \<theta> 12),
       ResnetBlock 512 512 (resnet_w \<theta> 13),
       UpSampling2D (2, 2),
       PaddedConv2D 512 3 1 1 (conv_w \<theta> 15),
       ResnetBlock 512 256 (resnet_w \<theta> 16),
       ResnetBlock 256 256 (resnet_w \<theta> 17),
       ResnetBlock 256 256 (resnet_w \<theta> 18),
       UpSampling2D (2, 2),
       PaddedConv2D 256 3 1 1 (conv_w \<theta> 20),
       ResnetBlock 256 128 (resnet_w \<theta> 21),
       ResnetBlock 128 128 (resnet_w \<theta> 22),
       ResnetBlock 128 128 (resnet_w \<theta> 23),
       GroupNormalization 0.00001 (norm_w \<theta> 24),
       (\<lambda>x. Some (Activation_swish x)),
       PaddedConv2D 3 3 1 1 (conv_w \<theta> 26) ]"

definition Decoder :: "model_weights \<Rightarrow> layer" where
  "Decoder \<theta> = Sequential (Decoder_layers \<theta>)"

definition Encoder_layers :: "model_weights \<Rightarrow> layer list" where
  "Encoder_layers \<theta> =
     [ PaddedConv2D 128 3 1 1 (conv_w \<theta> 0),
       ResnetBlock 128 128 (resnet_w \<theta> 1),
       ResnetBlock 128 128 (resnet_w \<theta> 2),
       PaddedConv2D 128 3 1 2 (conv_w \<theta> 3),
       ResnetBlock 128 256 (resnet_w \<theta> 4),
       ResnetBlock 256 256 (resnet_w \<theta> 5),
       PaddedConv2D 256 3 1 2 (conv_w \<theta> 6),
       ResnetBlock 256 512 (resnet_w \<theta> 7),
       ResnetBlock 512 512 (resnet_w \<theta> 8),
       PaddedConv2D 512 3 1 2 (conv_w \<theta> 9),
       ResnetBlock 512 512 (resnet_w \<theta> 10),
       ResnetBlock 512 512 (resnet_w \<theta> 11),
       ResnetBlock 512 512 (resnet_w \<theta> 12),
       AttentionBlock 512 (attn_w \<theta> 13),
       ResnetBlock 512 512 (resnet_w \<theta> 14),
       GroupNormalization 0.00001 (norm_w \<theta> 15),
       (\<lambda>x. Some (Activation_swish x)),
       PaddedConv2D 8 3 1 1 (conv_w \<theta> 17),
       PaddedConv2D 8 1 0 1 (conv_w \<theta> 18),
       encoder_lambda ]"

definition Encoder :: "model_weights \<Rightarrow> layer" where
  "Encoder \<theta> = Sequential (Encoder_layers \<theta>)"

section \<open>The blocks as the specification describes them\<close>

text \<open>
  The specification describes \<open>ResnetBlock\<close> and \<open>AttentionBlock\<close> by what they compute
  on a feature map. Here a feature map is a function from a batch entry, a row, a column and
  a channel to a real number, and each step of the description is written as a formula on
  such functions; nothing below refers to the layers of the module or of the framework.
  The theorems compare these formulas with the entries of the tensors that the module
  returns.
\<close>

type_synonym field = "nat \<Rightarrow> nat \<Rightarrow> nat \<Rightarrow> nat \<Rightarrow> real"

definition values_of :: "tensor \<Rightarrow> field" where
  "values_of x n i j ch = elem x [n, i, j, ch]"

text \<open>Normalization over 32 groups of consecutive channels: the mean and the variance
  of a group are taken over all \<open>h * w\<close> positions and the \<open>c div 32\<close> channels of the
  group, per batch entry; a learned scale and offset per channel follow.\<close>

definition group_norm_spec ::
  "real \<Rightarrow> norm_weights \<Rightarrow> nat \<Rightarrow> nat \<Rightarrow> nat \<Rightarrow> field \<Rightarrow> field" where
  "group_norm_spec epsilon W h w c t n i j ch =
     (let gs = c div 32;
          g = ch div gs;
          m = real (h * w * gs);
          mean = (\<Sum>i'\<leftarrow>[0..<h]. \<Sum>j'\<leftarrow>[0..<w]. \<Sum>r\<leftarrow>[0..<gs]. t n i' j' (g * gs + r)) / m;
          var = (\<Sum>i'\<leftarrow>[0..<h]. \<Sum>j'\<leftarrow>[0..<w]. \<Sum>r\<leftarrow>[0..<gs].
                   (t n i' j' (g * gs + r) - mean)\<^sup>2) / m
      in (t n i j ch - mean) / sqrt (var + epsilon) * gamma W ch + beta W ch)"

text \<open>The swish activation \<open>v / (1 + exp (- v))\<close>, at every entry.\<close>

definition swish_spec :: "field \<Rightarrow> field" where
  "swish_spec t n i j ch = t n i j ch / (1 + exp (- t n i j ch))"

text \<open>A \<open>k\<close> by \<open>k\<close> convolution of stride 1 over an \<open>h\<close> by \<open>w\<close> map of \<open>c\<close> channels that
  is surrounded by \<open>p\<close> rows and columns of zeros.\<close>

definition conv_spec ::
  "conv_weights \<Rightarrow> nat \<Rightarrow> nat \<Rightarrow> nat \<Rightarrow> nat \<Rightarrow> nat \<Rightarrow> field \<Rightarrow> field" where
  "conv_spec W k p h w c t n i j co =
     (\<Sum>di\<leftarrow>[0..<k]. \<Sum>dj\<leftarrow>[0..<k]. \<Sum>ci\<leftarrow>[0..<c].
        (if p \<le> i + di \<and> i + di < h + p \<and> p \<le> j + dj \<and> j + dj < w + p
         then t n (i + di - p) (j + dj - p) ci else 0) * kernel W di dj ci co)
     + bias W co"

text \<open>A 1x1 convolution: the same linear map of the channel vector at every position.\<close>

definition conv1x1_spec :: "conv_weights \<Rightarrow> nat \<Rightarrow> field \<Rightarrow> field" where
  "conv1x1_spec W c t n i j co = (\<Sum>ci\<leftarrow>[0..<c]. t n i j ci * kernel W 0 0 ci co) + bias W co"

text \<open>\<open>ResnetBlock\<close>: normalize, swish, 3x3 convolution (padding 1), normalize, swish, 3x3
  convolution (padding 1), added to a shortcut that is the input itself when the declared
  channel counts are equal and its 1x1 convolution otherwise. The input has \<open>c\<close>
  channels.\<close>

definition ResnetBlock_spec ::
  "nat \<Rightarrow> nat \<Rightarrow> resnet_weights \<Rightarrow> nat \<Rightarrow> nat \<Rightarrow> nat \<Rightarrow> field \<Rightarrow> field" where
  "ResnetBlock_spec cin cout W h w c X n i j co =
     (let a1 = swish_spec (group_norm_spec 0.00001 (norm1 W) h w c X);
          h1 = conv_spec (conv1 W) 3 1 h w c a1;
          a2 = swish_spec (group_norm_spec 0.00001 (norm2 W) h w cout h1);
          h2 = conv_spec (conv2 W) 3 1 h w cout a2;
          shortcut = (if cin = cout then X else conv1x1_spec (nin W) c X)
      in shortcut n i j co + h2 n i j co)"





section \<open>Auxiliary notions for the proofs\<close>

text \<open>A layer maps every tensor of one shape to a tensor of another.\<close>

definition maps_shape :: "layer \<Rightarrow> nat list \<Rightarrow> nat list \<Rightarrow> bool" where
  "maps_shape f ds ds' = (\<forall>x. dims x = ds \<longrightarrow> map_option dims (f x) = Some ds')"

text \<open>The batch size that \<open>tf.reshape\<close> infers when the spatial positions of a
  \<open>(b, h, w, c)\<close> tensor are flattened: \<open>b\<close> itself unless the tensor is empty.\<close>

definition nz :: "nat \<Rightarrow> nat" where
  "nz d = (if d = 0 then 1 else d)"

definition flat_batch :: "nat \<Rightarrow> nat \<Rightarrow> nat \<Rightarrow> nat" where
  "flat_batch b h w = (if h * w = 0 then nz b * nz h * nz w else b)"

text \<open>The shapes of the input and of every intermediate result of a sequential
  model, in order; once a layer fails, the remaining entries are \<open>None\<close>.\<close>

fun shapes :: "layer list \<Rightarrow> tensor \<Rightarrow> nat list option list" where
  "shapes [] x = [Some (dims x)]"
| "shapes (l # ls) x =
     Some (dims x) # (case l x of None \<Rightarrow> replicate (Suc (length ls)) None | Some y \<Rightarrow> shapes ls y)"

definition traces :: "layer list \<Rightarrow> nat list \<Rightarrow> nat list list \<Rightarrow> bool" where
  "traces ls ds dss = (\<forall>x. dims x = ds \<longrightarrow> shapes ls x = map Some (ds # dss))"

text \<open>A layer keeps the batch size and the rank of every rank-4 tensor it accepts.\<close>

definition keeps_batch :: "layer \<Rightarrow> bool" where
  "keeps_batch f = (\<forall>x y b h w c. f x = Some y \<longrightarrow> dims x = [b, h, w, c]
                      \<longrightarrow> (\<exists>h' w' c'. dims y = [b, h', w', c']))"

text \<open>A rank-4 tensor of a given shape whose entries are the values of a feature
  map.\<close>

definition has_values :: "tensor \<Rightarrow> nat \<Rightarrow> nat \<Rightarrow> nat \<Rightarrow> nat \<Rightarrow> field \<Rightarrow> bool" where
  "has_values y b h w c f =
     (dims y = [b, h, w, c] \<and> (\<forall>n<b. \<forall>i<h. \<forall>j<w. \<forall>ch<c. elem y [n, i, j, ch] = f n i j ch))"

section \<open>Zero weights and example data\<close>

definition zero_conv :: conv_weights where
  "zero_conv = \<lparr>kernel = (\<lambda>di dj ci co. 0), bias = (\<lambda>co. 0)\<rparr>"

definition unit_norm :: norm_weights where
  "unit_norm = \<lparr>gamma = (\<lambda>ch. 1), beta = (\<lambda>ch. 0)\<rparr>"

definition example_resnet :: resnet_weights where
  "example_resnet = \<lparr>norm1 = unit_norm, conv1 = zero_conv, norm2 = unit_norm,
     conv2 = zero_conv, nin = zero_conv\<rparr>"

definition example_attention :: attention_weights where
  "example_attention = \<lparr>attn_norm = unit_norm, attn_q = zero_conv, attn_k = zero_conv,
     attn_v = zero_conv, attn_proj_out = zero_conv\<rparr>"

definition example_weights :: model_weights where
  "example_weights = \<lparr>conv_w = (\<lambda>i. zero_conv), norm_w = (\<lambda>i. unit_norm),
     resnet_w = (\<lambda>i. example_resnet), attn_w = (\<lambda>i. example_attention)\<rparr>"

text \<open>A convolution that returns the same number at every entry.\<close>

definition bias_conv :: "real \<Rightarrow> conv_weights" where
  "bias_conv v = \<lparr>kernel = (\<lambda>di dj ci co. 0), bias = (\<lambda>co. v)\<rparr>"

definition const_tensor :: "nat list \<Rightarrow> real \<Rightarrow> tensor" where
  "const_tensor ds v = mk ds (\<lambda>is. v)"

section \<open>Shapes of constructed tensors\<close>

lemma dims_mk [simp]: "dims (mk ds f) = ds"
  by (simp add: mk_def)

lemma dims_mk4 [simp]: "dims (mk4 b h w c f) = [b, h, w, c]"
  by (simp add: mk4_def)

lemma dims_mk3 [simp]: "dims (mk3 b m n f) = [b, m, n]"
  by (simp add: mk3_def)

lemma dims_map_vals [simp]: "dims (map_vals g x) = dims x"
  by (simp add: map_vals_def)

lemma dims_Activation_swish [simp]: "dims (Activation_swish x) = dims x"
  by (simp add: Activation_swish_def)

lemma conv_output_length_Some:
  assumes "k \<le> n + s"
  shows "conv_output_length n k s = Some ((n + s - k) div s)"
proof -
  have "int n - int k + 1 + int s - 1 = int (n + s - k)"
    using assms by (simp add: of_nat_diff)
  then have "(int n - int k + 1 + int s - 1) div int s = int ((n + s - k) div s)"
    by (simp add: zdiv_int)
  then show ?thesis
    by (simp add: conv_output_length_def Let_def)
qed

lemma PaddedConv2D_dims:
  assumes "dims x = [b, h, w, c]" "0 < k" "0 < s" "k \<le> h + 2 * p + s" "k \<le> w + 2 * p + s"
    and "0 < c" "0 < ch"
  shows "map_option dims (PaddedConv2D ch k p s W x)
           = Some [b, (h + 2 * p + s - k) div s, (w + 2 * p + s - k) div s, ch]"
  using assms
  by (simp add: PaddedConv2D_def ZeroPadding2D_def Conv2D_def conv_output_length_Some)

lemma GroupNormalization_dims:
  "dims x = [b, h, w, c] \<Longrightarrow> 32 \<le> c \<Longrightarrow> 32 dvd c \<Longrightarrow>
   map_option dims (GroupNormalization e W x) = Some [b, h, w, c]"
  by (auto simp add: GroupNormalization_def Let_def)

lemma UpSampling2D_dims:
  "dims x = [b, h, w, c] \<Longrightarrow> 0 < h \<Longrightarrow> 0 < w \<Longrightarrow>
   map_option dims (UpSampling2D (2, 2) x) = Some [b, h * 2, w * 2, c]"
  by (simp add: UpSampling2D_def)

lemma tf_add_same_dims:
  "dims x = ds \<Longrightarrow> dims y = ds \<Longrightarrow> map_option dims (tf_add x y) = Some ds"
  by (simp add: tf_add_def broadcast_dims_def list_all2_same map2_map_map zip_same_conv_map list.map_ident_strong cong: if_cong)

lemma tf_reshape_infer:
  "tf_reshape x (- 1 # map int rest) =
     (let hz = (0 \<in> set rest);
          product = prod_list (filter (\<lambda>d. 0 < d) rest);
          n = prod_list (filter (\<lambda>d. 0 < d \<or> \<not> hz) (dims x));
          missing = n div product
      in if \<not> (hz \<and> 0 \<in> set (dims x)) \<and> product * missing \<noteq> n then None
         else if prod_list (missing # rest) \<noteq> prod_list (dims x) then None
         else Some \<lparr>dims = missing # rest, vals = vals x\<rparr>)"
proof -
  have 1: "filter (\<lambda>s. s = - 1) (map int rest) = []"
    by (induction rest) auto
  have 2: "map nat (filter (\<lambda>s. 0 < s) (map int rest)) = filter (\<lambda>d. 0 < d) rest"
    by (induction rest) auto
  have 3: "(0 \<in> set (map int rest)) = (0 \<in> set rest)"
    by (induction rest) auto
  have 4: "map (\<lambda>s. if s = - 1 then m else nat s) (map int rest) = rest" for m
    by (induction rest) auto
  have 5: "\<not> (\<exists>s \<in> set (map int rest). s < - 1)"
    by auto
  have 6: "map ((\<lambda>s. if s = - 1 then m else nat s) \<circ> int) rest = rest" for m
    using 4 by simp
  show ?thesis
    unfolding tf_reshape_def using 1 2 3 5 6
    by (simp add: Let_def del: set_map)
qed

lemma tf_reshape_q:
  assumes "dims x = [b, h, w, c]" "0 < c"
  shows "tf_reshape x (- 1 # map int [h * w, c])
           = Some \<lparr>dims = [flat_batch b h w, h * w, c], vals = vals x\<rparr>"
proof (cases "h * w = 0")
  case False
  then show ?thesis using assms
    by (simp add: tf_reshape_infer Let_def flat_batch_def del: list.map)
next
  case True
  then show ?thesis using assms
    by (auto simp add: tf_reshape_infer Let_def flat_batch_def nz_def simp del: list.map)
qed

lemma tf_reshape_k:
  assumes "dims x = [b, c, h, w]" "0 < c"
  shows "tf_reshape x (- 1 # map int [c, h * w])
           = Some \<lparr>dims = [flat_batch b h w, c, h * w], vals = vals x\<rparr>"
proof (cases "h * w = 0")
  case False
  then show ?thesis using assms
    by (simp add: tf_reshape_infer Let_def flat_batch_def del: list.map)
next
  case True
  then show ?thesis using assms
    by (auto simp add: tf_reshape_infer Let_def flat_batch_def nz_def simp del: list.map)
qed

lemma tf_reshape_back:
  assumes "dims x = [flat_batch b h w, h * w, c]" "0 < c"
  shows "tf_reshape x (- 1 # map int [h, w, c])
           = Some \<lparr>dims = [if h * w = 0 then nz b else b, h, w, c], vals = vals x\<rparr>"
proof (cases "h * w = 0")
  case False
  then show ?thesis using assms
    by (simp add: tf_reshape_infer Let_def flat_batch_def del: list.map)
next
  case True
  then show ?thesis using assms
    by (auto simp add: tf_reshape_infer Let_def flat_batch_def nz_def simp del: list.map)
qed

lemma Permute_312_dims:
  "dims x = [b, h, w, c] \<Longrightarrow> map_option dims (Permute [3, 1, 2] x) = Some [b, c, h, w]"
  by (simp add: Permute_def Let_def)

lemma Permute_21_dims:
  "dims x = [b, m, n] \<Longrightarrow> map_option dims (Permute [2, 1] x) = Some [b, n, m]"
  by (simp add: Permute_def Let_def)

lemma matmul_dims:
  "dims x = [b, m, k] \<Longrightarrow> dims y = [b, k, n] \<Longrightarrow> map_option dims (matmul x y) = Some [b, m, n]"
  by (simp add: matmul_def)

lemma softmax_dims:
  "2 \<le> length (dims x) \<Longrightarrow> map_option dims (softmax x) = Some (dims x)"
  by (simp add: softmax_def)


lemma dims_resultE:
  assumes "map_option dims r = Some ds"
  obtains y where "r = Some y" "dims y = ds"
  using assms by (cases r) auto

lemma pos32: "32 \<le> (c::nat) \<Longrightarrow> 0 < c"
  by simp

lemma conv1x1_dims:
  "dims x = [b, h, w, c] \<Longrightarrow> 0 < c \<Longrightarrow> 0 < ch \<Longrightarrow>
   map_option dims (PaddedConv2D ch 1 0 1 W x) = Some [b, h, w, ch]"
  using PaddedConv2D_dims [of x b h w c 1 1 0 ch W] by simp

lemma conv3x3_dims:
  "dims x = [b, h, w, c] \<Longrightarrow> 0 < c \<Longrightarrow> 0 < ch \<Longrightarrow>
   map_option dims (PaddedConv2D ch 3 1 1 W x) = Some [b, h, w, ch]"
  using PaddedConv2D_dims [of x b h w c 3 1 1 ch W] by simp

lemma conv3x3_stride2_dims:
  "dims x = [b, h, w, c] \<Longrightarrow> 0 < c \<Longrightarrow> 0 < ch \<Longrightarrow>
   map_option dims (PaddedConv2D ch 3 1 2 W x) = Some [b, (h + 1) div 2, (w + 1) div 2, ch]"
  using PaddedConv2D_dims [of x b h w c 3 2 1 ch W] by simp

lemma AttentionBlock_core:
  assumes x: "dims x = [b, h, w, C]" and C: "32 \<le> C" "32 dvd C" and ch: "0 < ch"
  shows "\<exists>p. dims p = [if h * w = 0 then nz b else b, h, w, ch]
             \<and> AttentionBlock ch W x = tf_add x p"
proof -
  let ?B = "flat_batch b h w"
  obtain hn where hn: "GroupNormalization 0.00001 (attn_norm W) x = Some hn" "dims hn = [b, h, w, C]"
    using GroupNormalization_dims [OF x C] by (rule dims_resultE)
  obtain q where q: "PaddedConv2D ch 1 0 1 (attn_q W) hn = Some q" "dims q = [b, h, w, ch]"
    using conv1x1_dims [OF hn(2) pos32 [OF C(1)] ch] by (rule dims_resultE)
  obtain k where k: "PaddedConv2D ch 1 0 1 (attn_k W) hn = Some k" "dims k = [b, h, w, ch]"
    using conv1x1_dims [OF hn(2) pos32 [OF C(1)] ch] by (rule dims_resultE)
  obtain v where v: "PaddedConv2D ch 1 0 1 (attn_v W) hn = Some v" "dims v = [b, h, w, ch]"
    using conv1x1_dims [OF hn(2) pos32 [OF C(1)] ch] by (rule dims_resultE)
  define q' where "q' = \<lparr>dims = [?B, h * w, ch], vals = vals q\<rparr>"
  have q': "tf_reshape q [- 1, int (h * w), int ch] = Some q'"
    using tf_reshape_q [OF q(2) ch] by (simp add: q'_def)
  obtain kp where kp: "Permute [3, 1, 2] k = Some kp" "dims kp = [b, ch, h, w]"
    using Permute_312_dims [OF k(2)] by (rule dims_resultE)
  define k' where "k' = \<lparr>dims = [?B, ch, h * w], vals = vals kp\<rparr>"
  have k': "tf_reshape kp [- 1, int ch, int (h * w)] = Some k'"
    using tf_reshape_k [OF kp(2) ch] by (simp add: k'_def)
  obtain s where s: "matmul q' k' = Some s" "dims s = [?B, h * w, h * w]"
    using matmul_dims [of q' ?B "h * w" ch k' "h * w"] by (auto simp: q'_def k'_def elim: dims_resultE)
  have sc: "pow_neg_half ch = Some (real ch powr (- 0.5))"
    using ch by (simp add: pow_neg_half_def)
  obtain a where a: "softmax (map_vals (\<lambda>e. e * (real ch powr (- 0.5))) s) = Some a"
      "dims a = [?B, h * w, h * w]"
    using softmax_dims [of "map_vals (\<lambda>e. e * (real ch powr (- 0.5))) s"] s(2)
    by (auto elim: dims_resultE)
  obtain vp where vp: "Permute [3, 1, 2] v = Some vp" "dims vp = [b, ch, h, w]"
    using Permute_312_dims [OF v(2)] by (rule dims_resultE)
  define v' where "v' = \<lparr>dims = [?B, ch, h * w], vals = vals vp\<rparr>"
  have v': "tf_reshape vp [- 1, int ch, int (h * w)] = Some v'"
    using tf_reshape_k [OF vp(2) ch] by (simp add: v'_def)
  obtain aT where aT: "Permute [2, 1] a = Some aT" "dims aT = [?B, h * w, h * w]"
    using Permute_21_dims [OF a(2)] by (rule dims_resultE)
  obtain o1 where o1: "matmul v' aT = Some o1" "dims o1 = [?B, ch, h * w]"
    using matmul_dims [of v' ?B ch "h * w" aT "h * w"] aT(2) by (auto simp: v'_def elim: dims_resultE)
  obtain o2 where o2: "Permute [2, 1] o1 = Some o2" "dims o2 = [?B, h * w, ch]"
    using Permute_21_dims [OF o1(2)] by (rule dims_resultE)
  define o3 where "o3 = \<lparr>dims = [if h * w = 0 then nz b else b, h, w, ch], vals = vals o2\<rparr>"
  have o3: "tf_reshape o2 [- 1, int h, int w, int ch] = Some o3"
    using tf_reshape_back [OF o2(2) ch] by (simp add: o3_def)
  obtain p where p: "PaddedConv2D ch 1 0 1 (attn_proj_out W) o3 = Some p"
      "dims p = [if h * w = 0 then nz b else b, h, w, ch]"
    using conv1x1_dims [of o3 "if h * w = 0 then nz b else b" h w ch ch "attn_proj_out W"] ch
    by (auto simp: o3_def elim: dims_resultE)
  have "AttentionBlock ch W x = tf_add x p"
    unfolding AttentionBlock_def
    using hn q k v q' kp k' s sc a vp v' aT o1 o2 o3 p by simp
  with p(2) show ?thesis by blast
qed


lemma tf_add_residual:
  assumes "dims x = [b, h, w, C]" "dims p = [if h * w = 0 then nz b else b, h, w, ch]" "1 < C"
  shows "tf_add x p = None \<or> map_option dims (tf_add x p) = Some [b, h, w, C]"
  using assms
  by (auto simp add: tf_add_def broadcast_dims_def nz_def split: if_splits)

lemma tf_add_residual_same:
  assumes "dims x = [b, h, w, c]" "dims p = [if h * w = 0 then nz b else b, h, w, c]"
  shows "map_option dims (tf_add x p) = Some [b, h, w, c]"
  using assms
  by (auto simp add: tf_add_def broadcast_dims_def nz_def split: if_splits)

lemma AttentionBlock_dims:
  assumes "dims x = [b, h, w, c]" "32 \<le> c" "32 dvd c"
  shows "map_option dims (AttentionBlock c W x) = Some [b, h, w, c]"
proof -
  obtain p where "dims p = [if h * w = 0 then nz b else b, h, w, c]"
      "AttentionBlock c W x = tf_add x p"
    using AttentionBlock_core [OF assms, of c W] assms(2) by auto
  then show ?thesis
    using tf_add_residual_same [OF assms(1)] by simp
qed

lemma ResnetBlock_dims:
  assumes x: "dims x = [b, h, w, c]" and c: "32 \<le> c" "32 dvd c"
    and co: "32 \<le> co" "32 dvd co" and same: "ci = co \<longrightarrow> c = co"
  shows "map_option dims (ResnetBlock ci co W x) = Some [b, h, w, co]"
proof -
  obtain n1 where n1: "GroupNormalization 0.00001 (norm1 W) x = Some n1" "dims n1 = [b, h, w, c]"
    using GroupNormalization_dims [OF x c] by (rule dims_resultE)
  obtain h1 where h1: "PaddedConv2D co 3 1 1 (conv1 W) (Activation_swish n1) = Some h1"
      "dims h1 = [b, h, w, co]"
    using conv3x3_dims [of "Activation_swish n1" b h w c co "conv1 W"] n1(2) c co
    by (auto elim: dims_resultE)
  obtain n2 where n2: "GroupNormalization 0.00001 (norm2 W) h1 = Some n2" "dims n2 = [b, h, w, co]"
    using GroupNormalization_dims [OF h1(2) co] by (rule dims_resultE)
  obtain h2 where h2: "PaddedConv2D co 3 1 1 (conv2 W) (Activation_swish n2) = Some h2"
      "dims h2 = [b, h, w, co]"
    using conv3x3_dims [of "Activation_swish n2" b h w co co "conv2 W"] n2(2) co
    by (auto elim: dims_resultE)
  obtain s where s: "nin_shortcut ci co (nin W) x = Some s" "dims s = [b, h, w, co]"
  proof (cases "ci = co")
    case True
    with same x that show ?thesis by (simp add: nin_shortcut_def)
  next
    case False
    with conv1x1_dims [OF x, of co "nin W"] c co that show ?thesis
      by (auto simp add: nin_shortcut_def elim: dims_resultE)
  qed
  have "ResnetBlock ci co W x = tf_add s h2"
    unfolding ResnetBlock_def using n1 h1 n2 h2 s by simp
  then show ?thesis
    using tf_add_same_dims [OF s(2) h2(2)] by simp
qed

lemma maps_shape_Nil: "maps_shape (Sequential []) ds ds"
  by (simp add: maps_shape_def)

lemma maps_shape_Cons:
  assumes "maps_shape l ds ds'" "maps_shape (Sequential ls) ds' ds''"
  shows "maps_shape (Sequential (l # ls)) ds ds''"
  unfolding maps_shape_def
proof (intro allI impI)
  fix x :: tensor assume "dims x = ds"
  with assms(1) obtain y where y: "l x = Some y" "dims y = ds'"
    unfolding maps_shape_def by (blast elim: dims_resultE)
  with assms(2) show "map_option dims (Sequential (l # ls) x) = Some ds''"
    unfolding maps_shape_def by simp
qed

lemma maps_conv1x1:
  "0 < c \<Longrightarrow> 0 < ch \<Longrightarrow> maps_shape (PaddedConv2D ch 1 0 1 W) [b, h, w, c] [b, h, w, ch]"
  unfolding maps_shape_def using conv1x1_dims by blast

lemma maps_conv3x3:
  "0 < c \<Longrightarrow> 0 < ch \<Longrightarrow> maps_shape (PaddedConv2D ch 3 1 1 W) [b, h, w, c] [b, h, w, ch]"
  unfolding maps_shape_def using conv3x3_dims by blast

lemma maps_conv3x3_stride2:
  "0 < c \<Longrightarrow> 0 < ch \<Longrightarrow> maps_shape (PaddedConv2D ch 3 1 2 W) [b, h, w, c] [b, (h + 1) div 2, (w + 1) div 2, ch]"
  unfolding maps_shape_def using conv3x3_stride2_dims by blast

lemma maps_ResnetBlock:
  "32 \<le> c \<Longrightarrow> 32 dvd c \<Longrightarrow> 32 \<le> co \<Longrightarrow> 32 dvd co \<Longrightarrow> (ci = co \<longrightarrow> c = co) \<Longrightarrow>
   maps_shape (ResnetBlock ci co W) [b, h, w, c] [b, h, w, co]"
  unfolding maps_shape_def using ResnetBlock_dims by blast

lemma maps_AttentionBlock:
  "32 \<le> c \<Longrightarrow> 32 dvd c \<Longrightarrow> maps_shape (AttentionBlock c W) [b, h, w, c] [b, h, w, c]"
  unfolding maps_shape_def using AttentionBlock_dims by blast

lemma maps_UpSampling2D:
  "0 < h \<Longrightarrow> 0 < w \<Longrightarrow> maps_shape (UpSampling2D (2, 2)) [b, h, w, c] [b, h * 2, w * 2, c]"
  unfolding maps_shape_def using UpSampling2D_dims by blast

lemma maps_GroupNormalization:
  "32 \<le> c \<Longrightarrow> 32 dvd c \<Longrightarrow> maps_shape (GroupNormalization e W) [b, h, w, c] [b, h, w, c]"
  unfolding maps_shape_def using GroupNormalization_dims by blast

lemma maps_swish: "maps_shape (\<lambda>x. Some (Activation_swish x)) ds ds"
  by (simp add: maps_shape_def)

lemma maps_decoder_lambda: "maps_shape decoder_lambda ds ds"
  by (simp add: maps_shape_def decoder_lambda_def)

lemma maps_encoder_lambda: "maps_shape encoder_lambda [b, h, w, c] [b, h, w, min 4 c]"
  by (simp add: maps_shape_def encoder_lambda_def)

lemmas maps_layer =
  maps_conv1x1 maps_conv3x3 maps_conv3x3_stride2 maps_ResnetBlock maps_AttentionBlock
  maps_UpSampling2D maps_GroupNormalization maps_swish maps_decoder_lambda maps_encoder_lambda

lemma Decoder_maps:
  assumes "0 < H" "0 < W"
  shows "maps_shape (Decoder \<theta>) [B, H, W, 4] [B, H * 2 * 2 * 2, W * 2 * 2 * 2, 3]"
  unfolding Decoder_def Decoder_layers_def
  apply (insert assms)
  apply (rule maps_shape_Cons maps_shape_Nil maps_layer | simp)+
  done

lemma Encoder_maps:
  assumes "0 < C"
  shows "maps_shape (Encoder \<theta>) [B, H, W, C]
     [B, (((H + 1) div 2 + 1) div 2 + 1) div 2, (((W + 1) div 2 + 1) div 2 + 1) div 2, 4]"
  unfolding Encoder_def Encoder_layers_def
  apply (insert assms)
  apply (rule maps_shape_Cons maps_shape_Nil maps_layer | simp)+
  done

section \<open>Convolution arithmetic\<close>

lemma floor_conv:
  "\<lfloor>(real H + 2 * real p - real k) / real s\<rfloor> = (int H + 2 * int p - int k) div int s"
proof -
  have "(real H + 2 * real p - real k) / real s
          = real_of_int (int H + 2 * int p - int k) / real_of_int (int s)"
    by simp
  then show ?thesis
    by (simp only: floor_divide_of_int_eq)
qed

lemma conv_output_length_int:
  assumes "conv_output_length n k s = Some l" "0 < s"
  shows "int l = (int n - int k) div int s + 1"
proof -
  have "int n - int k + 1 + int s - 1 = (int n - int k) + int s"
    by simp
  moreover have "((int n - int k) + int s) div int s = (int n - int k) div int s + 1"
    using assms(2) by (simp only: div_add_self2 of_nat_eq_0_iff)
  ultimately have "(int n - int k + 1 + int s - 1) div int s = (int n - int k) div int s + 1"
    by (simp only:)
  with assms(1) show ?thesis
    by (auto simp add: conv_output_length_def Let_def split: if_splits)
qed

lemma PaddedConv2D_SomeD:
  assumes "PaddedConv2D ch k p s Wt x = Some y" "dims x = [b, h, w, c]"
  shows "0 < k \<and> 0 < s \<and> (\<exists>h' w'. conv_output_length (h + 2 * p) k s = Some h'
            \<and> conv_output_length (w + 2 * p) k s = Some w' \<and> dims y = [b, h', w', ch])"
  using assms
  by (auto simp add: PaddedConv2D_def ZeroPadding2D_def Conv2D_def split: if_splits option.splits)


section \<open>Shape traces through a sequential model\<close>

lemma maps_shapeD: "maps_shape f ds ds' \<Longrightarrow> dims x = ds \<Longrightarrow> map_option dims (f x) = Some ds'"
  by (simp add: maps_shape_def)

lemma eighth: "8 dvd (n::nat) \<Longrightarrow> (((n + 1) div 2 + 1) div 2 + 1) div 2 = n div 8"
  by (elim dvdE) simp


lemma traces_Nil: "traces [] ds []"
  by (simp add: traces_def)

lemma traces_Cons:
  assumes "maps_shape l ds ds'" "traces ls ds' dss"
  shows "traces (l # ls) ds (ds' # dss)"
  unfolding traces_def
proof (intro allI impI)
  fix x :: tensor assume "dims x = ds"
  with assms(1) obtain y where y: "l x = Some y" "dims y = ds'"
    unfolding maps_shape_def by (blast elim: dims_resultE)
  with assms(2) \<open>dims x = ds\<close> show "shapes (l # ls) x = map Some (ds # ds' # dss)"
    unfolding traces_def by simp
qed

lemma last_shapes: "last (shapes ls x) = map_option dims (Sequential ls x)"
proof (induction ls arbitrary: x)
  case Nil
  show ?case by simp
next
  case (Cons l ls)
  show ?case
  proof (cases "l x")
    case None
    then show ?thesis by simp
  next
    case (Some y)
    have "shapes ls y \<noteq> []" by (cases ls) simp_all
    with Some Cons [of y] show ?thesis by simp
  qed
qed

lemma replicate_numeral_unfold: "replicate (numeral k) a = a # replicate (pred_numeral k) a"
  by (simp add: numeral_eq_Suc)

lemma replicate_one: "replicate 1 a = [a]"
  by simp

lemmas unfold_replicate =
  replicate_numeral_unfold replicate_one pred_numeral_simps BitM.simps numeral_One append.simps

lemma maps_encoder_lambda8: "maps_shape encoder_lambda [b, h, w, 8] [b, h, w, 4]"
  using maps_encoder_lambda [of b h w 8] by simp

lemma Decoder_traces:
  assumes "0 < H" "0 < W"
  shows "traces (Decoder_layers \<theta>) [B, H, W, 4]
     ([[B, H, W, 4], [B, H, W, 4]] @ replicate 7 [B, H, W, 512]
      @ replicate 5 [B, H * 2, W * 2, 512]
      @ replicate 2 [B, H * 2 * 2, W * 2 * 2, 512] @ replicate 3 [B, H * 2 * 2, W * 2 * 2, 256]
      @ replicate 2 [B, H * 2 * 2 * 2, W * 2 * 2 * 2, 256]
      @ replicate 5 [B, H * 2 * 2 * 2, W * 2 * 2 * 2, 128]
      @ [[B, H * 2 * 2 * 2, W * 2 * 2 * 2, 3]])"
  unfolding Decoder_layers_def
  apply (simp only: unfold_replicate)
  apply (insert assms)
  apply (rule traces_Cons traces_Nil maps_encoder_lambda8 maps_layer | simp)+
  done

lemma Encoder_traces:
  assumes "0 < C"
  shows "traces (Encoder_layers \<theta>) [B, H, W, C]
     (replicate 3 [B, H, W, 128]
      @ [[B, (H + 1) div 2, (W + 1) div 2, 128]]
      @ replicate 2 [B, (H + 1) div 2, (W + 1) div 2, 256]
      @ [[B, ((H + 1) div 2 + 1) div 2, ((W + 1) div 2 + 1) div 2, 256]]
      @ replicate 2 [B, ((H + 1) div 2 + 1) div 2, ((W + 1) div 2 + 1) div 2, 512]
      @ replicate 8 [B, (((H + 1) div 2 + 1) div 2 + 1) div 2, (((W + 1) div 2 + 1) div 2 + 1) div 2, 512]
      @ replicate 2 [B, (((H + 1) div 2 + 1) div 2 + 1) div 2, (((W + 1) div 2 + 1) div 2 + 1) div 2, 8]
      @ [[B, (((H + 1) div 2 + 1) div 2 + 1) div 2, (((W + 1) div 2 + 1) div 2 + 1) div 2, 4]])"
  unfolding Encoder_layers_def
  apply (simp only: unfold_replicate)
  apply (insert assms)
  apply (rule traces_Cons traces_Nil maps_encoder_lambda8 maps_layer | simp)+
  done

section \<open>Batch size\<close>

lemma PaddedConv2D_same_SomeD:
  assumes "PaddedConv2D ch 3 1 1 Wt x = Some y" "dims x = [b, h, w, c]"
  shows "dims y = [b, h, w, ch]"
  using PaddedConv2D_SomeD [OF assms] conv_output_length_Some [of 3 "h + 2 * 1" 1]
    conv_output_length_Some [of 3 "w + 2 * 1" 1]
  by auto

lemma PaddedConv2D_pointwise_SomeD:
  assumes "PaddedConv2D ch 1 0 1 Wt x = Some y" "dims x = [b, h, w, c]"
  shows "dims y = [b, h, w, ch]"
  using PaddedConv2D_SomeD [OF assms] conv_output_length_Some [of 1 "h + 2 * 0" 1]
    conv_output_length_Some [of 1 "w + 2 * 0" 1]
  by auto

lemma GroupNormalization_SomeD:
  assumes "GroupNormalization e W x = Some y"
  shows "\<exists>b h w c. dims x = [b, h, w, c] \<and> 32 \<le> c \<and> 32 dvd c \<and> dims y = [b, h, w, c]"
  using assms
  by (auto simp add: GroupNormalization_def Let_def split: list.splits if_splits)

lemma AttentionBlock_zero: "AttentionBlock 0 W x = Some y \<Longrightarrow> False"
proof -
  assume a: "AttentionBlock 0 W x = Some y"
  then obtain hn q where hn: "GroupNormalization 0.00001 (attn_norm W) x = Some hn"
      and q: "PaddedConv2D 0 1 0 1 (attn_q W) hn = Some q"
    unfolding AttentionBlock_def by (auto simp add: bind_eq_Some_conv)
  from GroupNormalization_SomeD [OF hn] obtain b h w c where "dims hn = [b, h, w, c]" by auto
  from PaddedConv2D_SomeD [OF q this] obtain h' w' where dq: "dims q = [b, h', w', 0]" by auto
  from a hn q dq show False
    unfolding AttentionBlock_def by (auto simp add: bind_eq_Some_conv pow_neg_half_def)
qed

lemma AttentionBlock_SomeD:
  assumes "AttentionBlock ch W x = Some y"
  shows "dims y = dims x \<and> length (dims x) = 4"
proof -
  from assms obtain hn where hn: "GroupNormalization 0.00001 (attn_norm W) x = Some hn"
    unfolding AttentionBlock_def by (auto simp add: bind_eq_Some_conv)
  from GroupNormalization_SomeD [OF hn] obtain b h w C where
    x: "dims x = [b, h, w, C]" and C: "32 \<le> C" "32 dvd C" by auto
  have ch: "0 < ch" using assms AttentionBlock_zero by (cases ch) auto
  from AttentionBlock_core [OF x C ch, of W] obtain p where
    p: "dims p = [if h * w = 0 then nz b else b, h, w, ch]" "AttentionBlock ch W x = tf_add x p"
    by blast
  from tf_add_residual [OF x p(1)] C(1) p(2) assms x show ?thesis by auto
qed

lemma tf_add_SomeD4:
  assumes "tf_add s t = Some y" "dims s = [b, h, w, c]" "dims t = [b, h, w, c']"
  shows "\<exists>c''. dims y = [b, h, w, c'']"
  using assms by (auto simp add: tf_add_def broadcast_dims_def split: if_splits)

lemma ResnetBlock_SomeD:
  assumes "ResnetBlock ci co W x = Some y" "dims x = [b, h, w, c]"
  shows "\<exists>c'. dims y = [b, h, w, c']"
proof -
  from assms(1) obtain n1 h1 n2 h2 s where
    n1: "GroupNormalization 0.00001 (norm1 W) x = Some n1"
    and h1: "PaddedConv2D co 3 1 1 (conv1 W) (Activation_swish n1) = Some h1"
    and n2: "GroupNormalization 0.00001 (norm2 W) h1 = Some n2"
    and h2: "PaddedConv2D co 3 1 1 (conv2 W) (Activation_swish n2) = Some h2"
    and s: "nin_shortcut ci co (nin W) x = Some s"
    and y: "tf_add s h2 = Some y"
    unfolding ResnetBlock_def by (auto simp add: bind_eq_Some_conv)
  from GroupNormalization_SomeD [OF n1] assms(2) have d1: "dims n1 = [b, h, w, c]" by auto
  then have "dims (Activation_swish n1) = [b, h, w, c]" by simp
  from PaddedConv2D_same_SomeD [OF h1 this] have dh1: "dims h1 = [b, h, w, co]" .
  from GroupNormalization_SomeD [OF n2] dh1 have "dims n2 = [b, h, w, co]" by auto
  then have "dims (Activation_swish n2) = [b, h, w, co]" by simp
  from PaddedConv2D_same_SomeD [OF h2 this] have dh2: "dims h2 = [b, h, w, co]" .
  have "\<exists>c''. dims s = [b, h, w, c'']"
  proof (cases "ci = co")
    case True
    with s assms(2) show ?thesis by (simp add: nin_shortcut_def)
  next
    case False
    with s PaddedConv2D_pointwise_SomeD [OF _ assms(2), of co "nin W"] show ?thesis
      by (auto simp add: nin_shortcut_def)
  qed
  then obtain c'' where "dims s = [b, h, w, c'']" ..
  from tf_add_SomeD4 [OF y this dh2] show ?thesis .
qed

lemma keeps_batch_PaddedConv2D: "keeps_batch (PaddedConv2D ch k p s W)"
  unfolding keeps_batch_def using PaddedConv2D_SomeD by blast

lemma keeps_batch_ResnetBlock: "keeps_batch (ResnetBlock ci co W)"
  unfolding keeps_batch_def using ResnetBlock_SomeD by blast

lemma keeps_batch_AttentionBlock: "keeps_batch (AttentionBlock ch W)"
  unfolding keeps_batch_def using AttentionBlock_SomeD by metis

lemma keeps_batch_GroupNormalization: "keeps_batch (GroupNormalization e W)"
  unfolding keeps_batch_def using GroupNormalization_SomeD by fastforce

lemma keeps_batch_UpSampling2D: "keeps_batch (UpSampling2D sz)"
  unfolding keeps_batch_def by (auto simp add: UpSampling2D_def split: if_splits)

lemma keeps_batch_swish: "keeps_batch (\<lambda>x. Some (Activation_swish x))"
  unfolding keeps_batch_def by auto

lemma keeps_batch_decoder_lambda: "keeps_batch decoder_lambda"
  unfolding keeps_batch_def by (auto simp add: decoder_lambda_def)

lemma keeps_batch_encoder_lambda: "keeps_batch encoder_lambda"
  unfolding keeps_batch_def by (auto simp add: encoder_lambda_def)

lemma keeps_batch_Sequential:
  "\<forall>l \<in> set ls. keeps_batch l \<Longrightarrow> keeps_batch (Sequential ls)"
proof (induction ls)
  case Nil
  show ?case by (simp add: keeps_batch_def)
next
  case (Cons l ls)
  then have l: "keeps_batch l" and r: "keeps_batch (Sequential ls)" by simp_all
  show ?case
    unfolding keeps_batch_def
  proof (intro allI impI)
    fix x y :: tensor and b h w c
    assume "Sequential (l # ls) x = Some y" "dims x = [b, h, w, c]"
    then obtain z where z: "l x = Some z" "Sequential ls z = Some y"
      by (auto simp add: bind_eq_Some_conv)
    from l z(1) \<open>dims x = [b, h, w, c]\<close> obtain h' w' c' where "dims z = [b, h', w', c']"
      unfolding keeps_batch_def by blast
    with r z(2) show "\<exists>h' w' c'. dims y = [b, h', w', c']"
      unfolding keeps_batch_def by blast
  qed
qed

lemmas keeps_batch_layer =
  keeps_batch_PaddedConv2D keeps_batch_ResnetBlock keeps_batch_AttentionBlock
  keeps_batch_GroupNormalization keeps_batch_UpSampling2D keeps_batch_swish
  keeps_batch_decoder_lambda keeps_batch_encoder_lambda

lemma keeps_batch_Encoder: "keeps_batch (Encoder \<theta>)"
  unfolding Encoder_def
  by (rule keeps_batch_Sequential) (simp add: Encoder_layers_def keeps_batch_layer)

lemma keeps_batch_Decoder: "keeps_batch (Decoder \<theta>)"
  unfolding Decoder_def
  by (rule keeps_batch_Sequential) (simp add: Decoder_layers_def keeps_batch_layer)

section \<open>Indexing tensors\<close>

lemma flat_index_less:
  "list_all2 (<) is ds \<Longrightarrow> flat_index ds is < prod_list ds"
proof (induction rule: list_all2_induct)
  case Nil
  show ?case by simp
next
  case (Cons i js d ds)
  have "i * prod_list ds + flat_index ds js < i * prod_list ds + prod_list ds"
    using Cons.IH by simp
  also have "\<dots> = Suc i * prod_list ds" by simp
  also have "\<dots> \<le> d * prod_list ds"
    using Cons.hyps(1) by (intro mult_le_mono1) simp
  finally show ?case by simp
qed

lemma unflat_flat_index:
  "list_all2 (<) is ds \<Longrightarrow> unflat ds (flat_index ds is) = is"
proof (induction rule: list_all2_induct)
  case Nil
  show ?case by simp
next
  case (Cons i js d ds)
  have "flat_index ds js < prod_list ds"
    using Cons.hyps(2) by (rule flat_index_less)
  then show ?case using Cons.IH by simp
qed

lemma unflat_valid:
  "k < prod_list ds \<Longrightarrow> list_all2 (<) (unflat ds k) ds"
proof (induction ds arbitrary: k)
  case Nil
  show ?case by simp
next
  case (Cons d ds)
  have p: "0 < prod_list ds"
    using Cons.prems by (cases "prod_list ds = 0") simp_all
  have "k div prod_list ds < d"
    using Cons.prems p by (simp add: less_mult_imp_div_less mult.commute)
  moreover have "k mod prod_list ds < prod_list ds"
    using p by simp
  ultimately show ?case using Cons.IH by simp
qed

lemma flat_index_unflat:
  "k < prod_list ds \<Longrightarrow> flat_index ds (unflat ds k) = k"
proof (induction ds arbitrary: k)
  case Nil
  then show ?case by simp
next
  case (Cons d ds)
  have p: "0 < prod_list ds"
    using Cons.prems by (cases "prod_list ds = 0") simp_all
  then have "k mod prod_list ds < prod_list ds" by simp
  then show ?case using Cons.IH by simp
qed

lemma well_shaped_mk [simp]: "well_shaped (mk ds f)"
  by (simp add: well_shaped_def mk_def)

lemma elem_mk:
  assumes "list_all2 (<) is ds"
  shows "elem (mk ds f) is = f is"
  using flat_index_less [OF assms] unflat_flat_index [OF assms]
  by (simp add: elem_def mk_def)

lemma elem_mk4:
  "n < b \<Longrightarrow> i < h \<Longrightarrow> j < w \<Longrightarrow> ch < c \<Longrightarrow> elem (mk4 b h w c f) [n, i, j, ch] = f n i j ch"
  by (simp add: mk4_def elem_mk)


lemma tensor_eqI:
  assumes "well_shaped x" "well_shaped y" "dims x = dims y"
    and "\<And>is. list_all2 (<) is (dims x) \<Longrightarrow> elem x is = elem y is"
  shows "x = y"
proof -
  have "vals x = vals y"
  proof (rule nth_equalityI)
    show "length (vals x) = length (vals y)"
      using assms(1-3) by (simp add: well_shaped_def)
  next
    fix k assume k: "k < length (vals x)"
    then have k': "k < prod_list (dims x)" using assms(1) by (simp add: well_shaped_def)
    from assms(4) [OF unflat_valid [OF k']] show "vals x ! k = vals y ! k"
      using flat_index_unflat [OF k'] assms(3) by (simp add: elem_def)
  qed
  with assms(3) show ?thesis by simp
qed

lemma well_shaped_map_vals [simp]: "well_shaped (map_vals g x) = well_shaped x"
  by (simp add: well_shaped_def map_vals_def)

lemma elem_map_vals:
  assumes "well_shaped x" "list_all2 (<) is (dims x)"
  shows "elem (map_vals g x) is = g (elem x is)"
  using flat_index_less [OF assms(2)] assms(1)
  by (simp add: elem_def map_vals_def well_shaped_def)

lemma mk_elem:
  "well_shaped x \<Longrightarrow> mk (dims x) (elem x) = x"
  by (rule tensor_eqI) (simp_all add: elem_mk)

section \<open>The latent slice and the sequential models\<close>

lemma encoder_lambda_8:
  "dims x = [B, H, W, 8] \<Longrightarrow>
   encoder_lambda x = Some (mk [B, H, W, 4] (\<lambda>is. elem x is * 0.18215))"
  by (simp add: encoder_lambda_def)

lemma last_Encoder_layers: "last (Encoder_layers \<theta>) = encoder_lambda"
  by (simp add: Encoder_layers_def)

lemma hd_Decoder_layers: "hd (Decoder_layers \<theta>) = decoder_lambda"
  by (simp add: Decoder_layers_def)

lemma Sequential_append:
  "Sequential (ls @ ls') x = Sequential ls x \<bind> Sequential ls'"
proof (induction ls arbitrary: x)
  case Nil
  show ?case by simp
next
  case (Cons l ls)
  show ?case
    by (cases "l x") (simp_all add: Cons.IH)
qed

lemma Sequential_snoc:
  "Sequential (ls @ [l]) x = Sequential ls x \<bind> l"
proof -
  have "Sequential [l] y = l y" for y
    by (cases "l y") simp_all
  then have "Sequential [l] = l" by (rule ext)
  then show ?thesis by (simp add: Sequential_append)
qed

lemma encoder_lambda_ignores:
  assumes "dims t = [B, H, W, 8]" "dims t' = [B, H, W, 8]"
    and "\<forall>n<B. \<forall>i<H. \<forall>j<W. \<forall>c<4. elem t [n, i, j, c] = elem t' [n, i, j, c]"
  shows "encoder_lambda t = encoder_lambda t'"
proof -
  have "mk [B, H, W, 4] (\<lambda>is. elem t is * 0.18215) = mk [B, H, W, 4] (\<lambda>is. elem t' is * 0.18215)"
  proof (rule tensor_eqI)
    fix js assume "list_all2 (<) js (dims (mk [B, H, W, 4] (\<lambda>is. elem t is * 0.18215)))"
    then have v: "list_all2 (<) js [B, H, W, 4]" by simp
    then obtain n i j c where js: "js = [n, i, j, c]" "n < B" "i < H" "j < W" "c < 4"
      by (auto simp add: list_all2_Cons2)
    with assms(3) have "elem t js = elem t' js" by simp
    then show "elem (mk [B, H, W, 4] (\<lambda>is. elem t is * 0.18215)) js
             = elem (mk [B, H, W, 4] (\<lambda>is. elem t' is * 0.18215)) js"
      using v by (simp add: elem_mk)
  qed simp_all
  then show ?thesis using assms(1,2) by (simp add: encoder_lambda_8)
qed


section \<open>A residual block whose learned branch is zero\<close>

lemma bidx_id:
  "list_all2 (<) is ds \<Longrightarrow> bidx ds is = is"
proof -
  assume a: "list_all2 (<) is ds"
  then have l: "length is = length ds" by (rule list_all2_lengthD)
  have "map2 (\<lambda>d i. if d = 1 then 0 else i) ds is = is"
    using a by (induction rule: list_all2_induct) auto
  with l show ?thesis by (simp add: bidx_def)
qed

lemma broadcast_dims_same: "broadcast_dims ds ds = Some ds"
  by (simp add: broadcast_dims_def list_all2_same map2_map_map zip_same_conv_map
      list.map_ident_strong cong: if_cong)

lemma tf_add_same:
  assumes "dims x = ds" "dims y = ds"
  shows "tf_add x y = Some (mk ds (\<lambda>is. elem x (bidx ds is) + elem y (bidx ds is)))"
  using assms by (simp add: tf_add_def broadcast_dims_same)

lemma tf_add_zero:
  assumes "well_shaped s" "dims s = ds"
  shows "tf_add s (mk ds (\<lambda>is. 0)) = Some s"
proof -
  have "mk ds (\<lambda>is. elem s (bidx ds is) + elem (mk ds (\<lambda>is. 0)) (bidx ds is)) = s"
  proof (rule tensor_eqI)
    fix js assume "list_all2 (<) js (dims (mk ds (\<lambda>is. elem s (bidx ds is) + elem (mk ds (\<lambda>is. 0)) (bidx ds is))))"
    then have v: "list_all2 (<) js ds" by simp
    then show "elem (mk ds (\<lambda>is. elem s (bidx ds is) + elem (mk ds (\<lambda>is. 0)) (bidx ds is))) js = elem s js"
      by (simp add: elem_mk bidx_id)
  qed (simp_all add: assms)
  then show ?thesis
    using tf_add_same [of s ds "mk ds (\<lambda>is. 0)"] assms(2) by simp
qed

lemma PaddedConv2D_zero:
  assumes "dims y = [b, h, w, c]" "0 < c" "0 < co"
  shows "PaddedConv2D co 3 1 1 zero_conv y = Some (mk [b, h, w, co] (\<lambda>is. 0))"
  using assms
  by (simp add: PaddedConv2D_def ZeroPadding2D_def Conv2D_def conv_output_length_Some
      zero_conv_def mk4_def)

lemma well_shaped_mk4 [simp]: "well_shaped (mk4 b h w c f)"
  by (simp add: mk4_def)

lemma well_shaped_mk3 [simp]: "well_shaped (mk3 b m n f)"
  by (simp add: mk3_def)

lemma PaddedConv2D_well_shaped:
  "PaddedConv2D ch k p s W x = Some y \<Longrightarrow> well_shaped y"
  by (auto simp add: PaddedConv2D_def ZeroPadding2D_def Conv2D_def bind_eq_Some_conv
      split: list.splits if_splits option.splits)

lemma PaddedConv2D_rank:
  "dims x = [] \<Longrightarrow> PaddedConv2D ch k p s W x = None"
  by (simp add: PaddedConv2D_def ZeroPadding2D_def)

lemma ResnetBlock_zero_branch:
  assumes x: "dims x = [b, h, w, c]" and c: "32 \<le> c" "32 dvd c"
    and co: "32 \<le> co" "32 dvd co" and z: "conv2 W = zero_conv"
  shows "ResnetBlock ci co W x = nin_shortcut ci co (nin W) x \<bind> (\<lambda>s. tf_add s (mk [b, h, w, co] (\<lambda>is. 0)))"
proof -
  obtain n1 where n1: "GroupNormalization 0.00001 (norm1 W) x = Some n1" "dims n1 = [b, h, w, c]"
    using GroupNormalization_dims [OF x c] by (rule dims_resultE)
  obtain h1 where h1: "PaddedConv2D co 3 1 1 (conv1 W) (Activation_swish n1) = Some h1"
      "dims h1 = [b, h, w, co]"
    using conv3x3_dims [of "Activation_swish n1" b h w c co "conv1 W"] n1(2) c co
    by (auto elim: dims_resultE)
  obtain n2 where n2: "GroupNormalization 0.00001 (norm2 W) h1 = Some n2" "dims n2 = [b, h, w, co]"
    using GroupNormalization_dims [OF h1(2) co] by (rule dims_resultE)
  have "dims (Activation_swish n2) = [b, h, w, co]" using n2(2) by simp
  then have h2: "PaddedConv2D co 3 1 1 (conv2 W) (Activation_swish n2) = Some (mk [b, h, w, co] (\<lambda>is. 0))"
    unfolding z using pos32 [OF co(1)] pos32 [OF co(1)] by (rule PaddedConv2D_zero)
  show ?thesis
    unfolding ResnetBlock_def using n1 h1 n2 h2 by simp
qed


section \<open>The attention computation, step by step\<close>

lemma sum_list_upt_cong:
  "(\<And>l. l < n \<Longrightarrow> f l = g l) \<Longrightarrow> (\<Sum>l\<leftarrow>[0..<n]. f l) = (\<Sum>l\<leftarrow>[0..<n]. g l)"
  by (rule arg_cong [where f = sum_list]) simp














section \<open>The values of the layers\<close>

lemma has_values_self: "dims x = [b, h, w, c] \<Longrightarrow> has_values x b h w c (values_of x)"
  by (simp add: has_values_def values_of_def)

lemma has_values_mk4:
  assumes "\<And>n i j ch. n < b \<Longrightarrow> i < h \<Longrightarrow> j < w \<Longrightarrow> ch < c \<Longrightarrow> f n i j ch = g n i j ch"
  shows "has_values (mk4 b h w c f) b h w c g"
  using assms by (simp add: has_values_def elem_mk4)

lemma has_valuesD:
  "has_values y b h w c f \<Longrightarrow> n < b \<Longrightarrow> i < h \<Longrightarrow> j < w \<Longrightarrow> ch < c \<Longrightarrow> elem y [n, i, j, ch] = f n i j ch"
  by (simp add: has_values_def)

lemma has_values_dims: "has_values y b h w c f \<Longrightarrow> dims y = [b, h, w, c]"
  by (simp add: has_values_def)

lemma group_member:
  assumes "32 dvd c" "ch < c" "r < c div 32"
  shows "ch div (c div 32) * (c div 32) + r < (c::nat)"
proof -
  let ?gs = "c div 32"
  have c: "c = 32 * ?gs" using assms(1) by simp
  have gs: "0 < ?gs" using assms(3) by simp
  have "ch < 32 * ?gs" using assms(2) c by simp
  then have "ch div ?gs < 32"
    by (simp add: less_mult_imp_div_less)
  then have "Suc (ch div ?gs) * ?gs \<le> 32 * ?gs"
    by (intro mult_le_mono1) simp
  moreover have "ch div ?gs * ?gs + r < Suc (ch div ?gs) * ?gs"
    using assms(3) by simp
  ultimately show ?thesis using c by linarith
qed

lemma group_norm_spec_cong:
  assumes eq: "\<And>i j ch. i < h \<Longrightarrow> j < w \<Longrightarrow> ch < c \<Longrightarrow> t n i j ch = t' n i j ch"
    and c: "32 dvd c" and idx: "i0 < h" "j0 < w" "ch0 < c"
  shows "group_norm_spec e W h w c t n i0 j0 ch0 = group_norm_spec e W h w c t' n i0 j0 ch0"
proof -
  let ?gs = "c div 32"
  let ?g = "ch0 div ?gs"
  have m: "t n i j (?g * ?gs + r) = t' n i j (?g * ?gs + r)" if "i < h" "j < w" "r < ?gs" for i j r
    using that group_member [OF c idx(3) that(3)] by (intro eq) simp_all
  have s1: "(\<Sum>i'\<leftarrow>[0..<h]. \<Sum>j'\<leftarrow>[0..<w]. \<Sum>r\<leftarrow>[0..<?gs]. t n i' j' (?g * ?gs + r))
          = (\<Sum>i'\<leftarrow>[0..<h]. \<Sum>j'\<leftarrow>[0..<w]. \<Sum>r\<leftarrow>[0..<?gs]. t' n i' j' (?g * ?gs + r))"
    by (intro sum_list_upt_cong) (simp add: m)
  have s2: "(\<Sum>i'\<leftarrow>[0..<h]. \<Sum>j'\<leftarrow>[0..<w]. \<Sum>r\<leftarrow>[0..<?gs]. (t n i' j' (?g * ?gs + r) - M)\<^sup>2)
          = (\<Sum>i'\<leftarrow>[0..<h]. \<Sum>j'\<leftarrow>[0..<w]. \<Sum>r\<leftarrow>[0..<?gs]. (t' n i' j' (?g * ?gs + r) - M)\<^sup>2)" for M
    by (intro sum_list_upt_cong) (simp add: m)
  show ?thesis
    unfolding group_norm_spec_def Let_def
    by (simp only: s1 s2 eq [OF idx])
qed

lemma conv_spec_cong:
  assumes eq: "\<And>i j ch. i < h \<Longrightarrow> j < w \<Longrightarrow> ch < c \<Longrightarrow> t n i j ch = t' n i j ch"
  shows "conv_spec W k p h w c t n i0 j0 co = conv_spec W k p h w c t' n i0 j0 co"
proof -
  have "(if p \<le> i0 + di \<and> i0 + di < h + p \<and> p \<le> j0 + dj \<and> j0 + dj < w + p
         then t n (i0 + di - p) (j0 + dj - p) ci else 0)
      = (if p \<le> i0 + di \<and> i0 + di < h + p \<and> p \<le> j0 + dj \<and> j0 + dj < w + p
         then t' n (i0 + di - p) (j0 + dj - p) ci else 0)" if "ci < c" for di dj ci
    using that by (auto intro!: eq)
  then have "(\<Sum>di\<leftarrow>[0..<k]. \<Sum>dj\<leftarrow>[0..<k]. \<Sum>ci\<leftarrow>[0..<c].
        (if p \<le> i0 + di \<and> i0 + di < h + p \<and> p \<le> j0 + dj \<and> j0 + dj < w + p
         then t n (i0 + di - p) (j0 + dj - p) ci else 0) * kernel W di dj ci co)
     = (\<Sum>di\<leftarrow>[0..<k]. \<Sum>dj\<leftarrow>[0..<k]. \<Sum>ci\<leftarrow>[0..<c].
        (if p \<le> i0 + di \<and> i0 + di < h + p \<and> p \<le> j0 + dj \<and> j0 + dj < w + p
         then t' n (i0 + di - p) (j0 + dj - p) ci else 0) * kernel W di dj ci co)"
    by (intro sum_list_upt_cong) simp
  then show ?thesis
    by (simp only: conv_spec_def)
qed

lemma GroupNormalization_values:
  assumes x: "has_values x b h w c f" and c: "32 \<le> c" "32 dvd c"
  shows "\<exists>y. GroupNormalization e W x = Some y \<and> well_shaped y
             \<and> has_values y b h w c (group_norm_spec e W h w c f)"
proof -
  have d: "dims x = [b, h, w, c]" using x by (rule has_values_dims)
  have "(\<lambda>n i j ch. group_norm_spec e W h w c (values_of x) n i j ch)
          = group_norm_spec e W h w c (values_of x)"
    by simp
  moreover have "GroupNormalization e W x
      = Some (mk4 b h w c (\<lambda>n i j ch. group_norm_spec e W h w c (values_of x) n i j ch))"
    using d c by (simp add: GroupNormalization_def group_norm_spec_def values_of_def Let_def)
  ultimately have r: "GroupNormalization e W x
      = Some (mk4 b h w c (group_norm_spec e W h w c (values_of x)))"
    by simp
  have "has_values (mk4 b h w c (group_norm_spec e W h w c (values_of x))) b h w c
      (group_norm_spec e W h w c f)"
  proof (rule has_values_mk4)
    fix n i j ch assume *: "n < b" "i < h" "j < w" "ch < c"
    show "group_norm_spec e W h w c (values_of x) n i j ch = group_norm_spec e W h w c f n i j ch"
    proof (rule group_norm_spec_cong [OF _ c(2) *(2,3,4)])
      fix i' j' ch' assume "i' < h" "j' < w" "ch' < c"
      then show "values_of x n i' j' ch' = f n i' j' ch'"
        using has_valuesD [OF x *(1)] by (simp add: values_of_def)
    qed
  qed
  with r show ?thesis by simp
qed

lemma Activation_swish_values:
  assumes "has_values y b h w c f" "well_shaped y"
  shows "well_shaped (Activation_swish y) \<and> has_values (Activation_swish y) b h w c (swish_spec f)"
proof -
  have d: "dims y = [b, h, w, c]" using assms(1) by (rule has_values_dims)
  have "elem (Activation_swish y) [n, i, j, ch] = swish_spec f n i j ch"
    if "n < b" "i < h" "j < w" "ch < c" for n i j ch
  proof -
    have "elem (Activation_swish y) [n, i, j, ch] = swish (elem y [n, i, j, ch])"
      unfolding Activation_swish_def using that d by (intro elem_map_vals [OF assms(2)]) simp
    also have "\<dots> = swish (f n i j ch)"
      using has_valuesD [OF assms(1) that] by simp
    finally show ?thesis by (simp add: swish_def swish_spec_def)
  qed
  then show ?thesis
    using d assms(2) by (simp add: has_values_def Activation_swish_def)
qed

lemma PaddedConv2D_values:
  assumes x: "has_values x b h w c f" and pos: "0 < c" "0 < co" and k: "k = 2 * p + 1"
  shows "\<exists>y. PaddedConv2D co k p 1 W x = Some y \<and> well_shaped y
             \<and> has_values y b h w co (conv_spec W k p h w c f)"
proof -
  have d: "dims x = [b, h, w, c]" using x by (rule has_values_dims)
  define pf where "pf = (\<lambda>n i j ch. if p \<le> i \<and> i < h + p \<and> p \<le> j \<and> j < w + p
                         then elem x [n, i - p, j - p, ch] else 0)"
  define P where "P = mk4 b (h + 2 * p) (w + 2 * p) c pf"
  have P: "ZeroPadding2D p x = Some P"
    using d by (simp add: ZeroPadding2D_def P_def pf_def)
  have len: "conv_output_length (h + 2 * p) k 1 = Some h" "conv_output_length (w + 2 * p) k 1 = Some w"
    using conv_output_length_Some [of k "h + 2 * p" 1] conv_output_length_Some [of k "w + 2 * p" 1] k
    by simp_all
  define y where "y = mk4 b h w co (\<lambda>n i j oc.
      (\<Sum>di\<leftarrow>[0..<k]. \<Sum>dj\<leftarrow>[0..<k]. \<Sum>ci\<leftarrow>[0..<c].
          elem P [n, i * 1 + di, j * 1 + dj, ci] * kernel W di dj ci oc) + bias W oc)"
  have "Conv2D co k 1 W P = Some y"
    using pos k len by (simp add: Conv2D_def P_def y_def)
  with P have r: "PaddedConv2D co k p 1 W x = Some y"
    by (simp add: PaddedConv2D_def)
  have "has_values y b h w co (conv_spec W k p h w c f)"
    unfolding y_def
  proof (rule has_values_mk4)
    fix n i j oc assume *: "n < b" "i < h" "j < w" "oc < co"
    have e: "elem P [n, i * 1 + di, j * 1 + dj, ci]
        = (if p \<le> i + di \<and> i + di < h + p \<and> p \<le> j + dj \<and> j + dj < w + p
           then f n (i + di - p) (j + dj - p) ci else 0)"
      if "di < k" "dj < k" "ci < c" for di dj ci
    proof -
      have "i + di < h + 2 * p" "j + dj < w + 2 * p"
        using * that k by simp_all
      then have "elem P [n, i + di, j + dj, ci] = pf n (i + di) (j + dj) ci"
        unfolding P_def using *(1) that(3) by (intro elem_mk4)
      also have "\<dots> = (if p \<le> i + di \<and> i + di < h + p \<and> p \<le> j + dj \<and> j + dj < w + p
           then f n (i + di - p) (j + dj - p) ci else 0)"
        unfolding pf_def using has_valuesD [OF x *(1) _ _ that(3)] by auto
      finally show ?thesis by simp
    qed
    have "(\<Sum>di\<leftarrow>[0..<k]. \<Sum>dj\<leftarrow>[0..<k]. \<Sum>ci\<leftarrow>[0..<c].
          elem P [n, i * 1 + di, j * 1 + dj, ci] * kernel W di dj ci oc)
       = (\<Sum>di\<leftarrow>[0..<k]. \<Sum>dj\<leftarrow>[0..<k]. \<Sum>ci\<leftarrow>[0..<c].
          (if p \<le> i + di \<and> i + di < h + p \<and> p \<le> j + dj \<and> j + dj < w + p
           then f n (i + di - p) (j + dj - p) ci else 0) * kernel W di dj ci oc)"
      by (intro sum_list_upt_cong) (simp only: e)
    then show "(\<Sum>di\<leftarrow>[0..<k]. \<Sum>dj\<leftarrow>[0..<k]. \<Sum>ci\<leftarrow>[0..<c].
          elem P [n, i * 1 + di, j * 1 + dj, ci] * kernel W di dj ci oc) + bias W oc
        = conv_spec W k p h w c f n i j oc"
      by (simp only: conv_spec_def)
  qed
  moreover have "well_shaped y" by (simp add: y_def)
  ultimately show ?thesis using r by simp
qed

lemma tf_add_values:
  assumes "has_values s b h w c f" "has_values t b h w c g"
  shows "\<exists>y. tf_add s t = Some y \<and> has_values y b h w c (\<lambda>n i j ch. f n i j ch + g n i j ch)"
proof -
  let ?ds = "[b, h, w, c]"
  have d: "dims s = ?ds" "dims t = ?ds"
    using assms by (simp_all add: has_values_def)
  define y where "y = mk ?ds (\<lambda>is. elem s (bidx ?ds is) + elem t (bidx ?ds is))"
  have "tf_add s t = Some y"
    unfolding y_def using d by (rule tf_add_same)
  moreover have "elem y [n, i, j, ch] = f n i j ch + g n i j ch"
    if "n < b" "i < h" "j < w" "ch < c" for n i j ch
  proof -
    have v: "list_all2 (<) [n, i, j, ch] ?ds" using that by simp
    show ?thesis
      unfolding y_def
      using has_valuesD [OF assms(1) that] has_valuesD [OF assms(2) that]
      by (simp add: elem_mk [OF v] bidx_id [OF v])
  qed
  ultimately show ?thesis
    by (simp add: has_values_def y_def)
qed

lemma has_values_cong:
  assumes "has_values y b h w c f"
    and "\<And>n i j ch. n < b \<Longrightarrow> i < h \<Longrightarrow> j < w \<Longrightarrow> ch < c \<Longrightarrow> f n i j ch = g n i j ch"
  shows "has_values y b h w c g"
  using assms by (simp add: has_values_def)

lemma conv_spec_pointwise:
  "i < h \<Longrightarrow> j < w \<Longrightarrow> conv_spec W 1 0 h w c t n i j co = conv1x1_spec W c t n i j co"
  by (simp add: conv_spec_def conv1x1_spec_def)

lemma PaddedConv2D_pointwise_values:
  assumes x: "has_values x b h w c f" and pos: "0 < c" "0 < co"
  shows "\<exists>y. PaddedConv2D co 1 0 1 W x = Some y \<and> well_shaped y
             \<and> has_values y b h w co (conv1x1_spec W c f)"
proof -
  have "\<exists>y. PaddedConv2D co 1 0 1 W x = Some y \<and> well_shaped y
             \<and> has_values y b h w co (conv_spec W 1 0 h w c f)"
    using x pos by (rule PaddedConv2D_values) simp
  then obtain y where y: "PaddedConv2D co 1 0 1 W x = Some y" "well_shaped y"
      "has_values y b h w co (conv_spec W 1 0 h w c f)"
    by (elim exE conjE)
  have "has_values y b h w co (conv1x1_spec W c f)"
    using y(3) by (rule has_values_cong) (simp only: conv_spec_pointwise)
  with y(1,2) show ?thesis by simp
qed

lemma PaddedConv2D_same_values:
  assumes x: "has_values x b h w c f" and pos: "0 < c" "0 < co"
  shows "\<exists>y. PaddedConv2D co 3 1 1 W x = Some y \<and> well_shaped y
             \<and> has_values y b h w co (conv_spec W 3 1 h w c f)"
  using x pos by (rule PaddedConv2D_values) simp

lemma ResnetBlock_values:
  assumes x: "dims x = [b, h, w, c]" and c: "32 \<le> c" "32 dvd c"
    and co: "32 \<le> co" "32 dvd co" and same: "ci = co \<longrightarrow> c = co"
  shows "\<exists>y. ResnetBlock ci co W x = Some y
             \<and> has_values y b h w co (ResnetBlock_spec ci co W h w c (values_of x))"
proof -
  let ?X = "values_of x"
  let ?A1 = "swish_spec (group_norm_spec 0.00001 (norm1 W) h w c ?X)"
  let ?H1 = "conv_spec (conv1 W) 3 1 h w c ?A1"
  let ?A2 = "swish_spec (group_norm_spec 0.00001 (norm2 W) h w co ?H1)"
  let ?H2 = "conv_spec (conv2 W) 3 1 h w co ?A2"
  let ?S = "if ci = co then ?X else conv1x1_spec (nin W) c ?X"
  have X: "has_values x b h w c ?X" using x by (rule has_values_self)
  obtain n1 where n1: "GroupNormalization 0.00001 (norm1 W) x = Some n1" "well_shaped n1"
      "has_values n1 b h w c (group_norm_spec 0.00001 (norm1 W) h w c ?X)"
    using GroupNormalization_values [OF X c, where e = "0.00001" and W = "norm1 W"]
    by (elim exE conjE)
  have a1: "has_values (Activation_swish n1) b h w c ?A1"
    using Activation_swish_values [OF n1(3) n1(2)] by (rule conjunct2)
  obtain h1 where h1: "PaddedConv2D co 3 1 1 (conv1 W) (Activation_swish n1) = Some h1"
      "has_values h1 b h w co ?H1"
    using PaddedConv2D_same_values [OF a1 pos32 [OF c(1)] pos32 [OF co(1)], where W = "conv1 W"]
    by (elim exE conjE)
  obtain n2 where n2: "GroupNormalization 0.00001 (norm2 W) h1 = Some n2" "well_shaped n2"
      "has_values n2 b h w co (group_norm_spec 0.00001 (norm2 W) h w co ?H1)"
    using GroupNormalization_values [OF h1(2) co, where e = "0.00001" and W = "norm2 W"]
    by (elim exE conjE)
  have a2: "has_values (Activation_swish n2) b h w co ?A2"
    using Activation_swish_values [OF n2(3) n2(2)] by (rule conjunct2)
  obtain h2 where h2: "PaddedConv2D co 3 1 1 (conv2 W) (Activation_swish n2) = Some h2"
      "has_values h2 b h w co ?H2"
    using PaddedConv2D_same_values [OF a2 pos32 [OF co(1)] pos32 [OF co(1)], where W = "conv2 W"]
    by (elim exE conjE)
  obtain s where s: "nin_shortcut ci co (nin W) x = Some s" "has_values s b h w co ?S"
  proof (cases "ci = co")
    case True
    with same have "c = co" by simp
    with X True have "has_values x b h w co ?S" by simp
    moreover have "nin_shortcut ci co (nin W) x = Some x"
      using True by (simp add: nin_shortcut_def)
    ultimately show ?thesis by (rule that [rotated])
  next
    case False
    obtain s where s: "PaddedConv2D co 1 0 1 (nin W) x = Some s"
        "has_values s b h w co (conv1x1_spec (nin W) c ?X)"
      using PaddedConv2D_pointwise_values [OF X pos32 [OF c(1)] pos32 [OF co(1)], where W = "nin W"]
      by (elim exE conjE)
    have "nin_shortcut ci co (nin W) x = Some s"
      using False s(1) by (simp add: nin_shortcut_def)
    moreover have "has_values s b h w co ?S"
      using False s(2) by simp
    ultimately show ?thesis by (rule that)
  qed
  obtain y where y: "tf_add s h2 = Some y"
      "has_values y b h w co (\<lambda>n i j ch. ?S n i j ch + ?H2 n i j ch)"
    using tf_add_values [OF s(2) h2(2)] by (elim exE conjE)
  have "ResnetBlock ci co W x = Some y"
    unfolding ResnetBlock_def using n1(1) h1(1) n2(1) h2(1) s(1) y(1) by simp
  moreover have "has_values y b h w co (ResnetBlock_spec ci co W h w c ?X)"
    using y(2) by (rule has_values_cong) (simp add: ResnetBlock_spec_def Let_def)
  ultimately show ?thesis by simp
qed

section \<open>The values of the attention block\<close>



lemma conv_spec_bias: "conv_spec (bias_conv v) k p h w c t n i j co = v"
  by (simp add: conv_spec_def bias_conv_def)

lemma conv1x1_spec_bias: "conv1x1_spec (bias_conv v) c t n i j co = v"
  by (simp add: conv1x1_spec_def bias_conv_def)

lemma values_of_const:
  "n < b \<Longrightarrow> i < h \<Longrightarrow> j < w \<Longrightarrow> ch < c \<Longrightarrow> values_of (const_tensor [b, h, w, c] v) n i j ch = v"
  by (simp add: values_of_def const_tensor_def elem_mk)





lemma PaddedConv2D_no_channels:
  assumes "dims x = [b, h, w, c]" "c = 0 \<or> ch = 0"
  shows "PaddedConv2D ch k p s W x = None"
  using assms by (auto simp add: PaddedConv2D_def ZeroPadding2D_def Conv2D_def)

lemma Decoder_split:
  "Decoder_layers \<theta> = take 9 (Decoder_layers \<theta>) @ UpSampling2D (2, 2) # drop 10 (Decoder_layers \<theta>)"
  by (simp add: Decoder_layers_def)

lemma Decoder_take9:
  "take 9 (Decoder_layers \<theta>) =
     [ decoder_lambda,
       PaddedConv2D 4 1 0 1 (conv_w \<theta> 1),
       PaddedConv2D 512 3 1 1 (conv_w \<theta> 2),
       ResnetBlock 512 512 (resnet_w \<theta> 3),
       AttentionBlock 512 (attn_w \<theta> 4),
       ResnetBlock 512 512 (resnet_w \<theta> 5),
       ResnetBlock 512 512 (resnet_w \<theta> 6),
       ResnetBlock 512 512 (resnet_w \<theta> 7),
       ResnetBlock 512 512 (resnet_w \<theta> 8) ]"
  by (simp add: Decoder_layers_def)

lemma Decoder_bottleneck_maps:
  "maps_shape (Sequential (take 9 (Decoder_layers \<theta>))) [B, H, W, 4] [B, H, W, 512]"
  unfolding Decoder_take9 by (rule maps_shape_Cons maps_shape_Nil maps_layer | simp)+

lemma Decoder_empty_image:
  assumes "dims x = [B, H, W, 4]" "H = 0 \<or> W = 0"
  shows "Decoder \<theta> x = None"
proof -
  obtain y where y: "Sequential (take 9 (Decoder_layers \<theta>)) x = Some y" "dims y = [B, H, W, 512]"
    using maps_shapeD [OF Decoder_bottleneck_maps assms(1)] by (rule dims_resultE)
  have "UpSampling2D (2, 2) y = None"
    using y(2) assms(2) by (auto simp add: UpSampling2D_def)
  moreover have "Decoder \<theta> x = Sequential (take 9 (Decoder_layers \<theta>)) x
      \<bind> Sequential (UpSampling2D (2, 2) # drop 10 (Decoder_layers \<theta>))"
    unfolding Decoder_def by (subst Decoder_split) (simp only: Sequential_append)
  ultimately show ?thesis using y(1) by simp
qed

lemma Decoder_take2:
  "take 2 (Decoder_layers \<theta>) = [decoder_lambda, PaddedConv2D 4 1 0 1 (conv_w \<theta> 1)]"
  by (simp add: Decoder_layers_def)

lemma Decoder_take3:
  "take 3 (Decoder_layers \<theta>)
     = [decoder_lambda, PaddedConv2D 4 1 0 1 (conv_w \<theta> 1), PaddedConv2D 512 3 1 1 (conv_w \<theta> 2)]"
  by (simp add: Decoder_layers_def)

section \<open>The shape contracts\<close>

text \<open>
  C8, as amended. On an input of shape \<open>(B, H, W, Cin)\<close>, whatever PaddedConv2D returns has
  shape \<open>(B, H', W', Cout)\<close> with \<open>H' = floor((H + 2 * padding - kernel_size) / stride) + 1\<close>
  and likewise for \<open>W'\<close>. It returns a tensor whenever kernel size, stride, \<open>Cin\<close> and
  \<open>Cout\<close> are positive and the kernel fits into the padded input, and it rejects an input
  without channels and a layer declared with no output channel. With padding 1, kernel 3
  and stride 1 the spatial dimensions are preserved, \<open>H' = H\<close> and \<open>W' = W\<close>, for every input
  with at least one channel.
\<close>

theorem PaddedConv2D_shape:
  assumes "dims x = [B, H, W, Cin]"
  shows "(\<forall>y. PaddedConv2D Cout k p s Wt x = Some y \<longrightarrow>
            map int (dims y) = [int B, \<lfloor>(real H + 2 * real p - real k) / real s\<rfloor> + 1,
                                \<lfloor>(real W + 2 * real p - real k) / real s\<rfloor> + 1, int Cout])
       \<and> (0 < k \<and> 0 < s \<and> 0 < Cin \<and> 0 < Cout \<and> k \<le> H + 2 * p \<and> k \<le> W + 2 * p
            \<longrightarrow> PaddedConv2D Cout k p s Wt x \<noteq> None)
       \<and> (Cin = 0 \<or> Cout = 0 \<longrightarrow> PaddedConv2D Cout k p s Wt x = None)
       \<and> (0 < Cin \<and> 0 < Cout
            \<longrightarrow> map_option dims (PaddedConv2D Cout 3 1 1 Wt x) = Some [B, H, W, Cout])"
proof (intro conjI allI impI)
  fix y assume y: "PaddedConv2D Cout k p s Wt x = Some y"
  from PaddedConv2D_SomeD [OF y assms] obtain h' w' where
    *: "0 < s" "conv_output_length (H + 2 * p) k s = Some h'"
       "conv_output_length (W + 2 * p) k s = Some w'" "dims y = [B, h', w', Cout]"
    by blast
  show "map int (dims y) = [int B, \<lfloor>(real H + 2 * real p - real k) / real s\<rfloor> + 1,
                                \<lfloor>(real W + 2 * real p - real k) / real s\<rfloor> + 1, int Cout]"
    using conv_output_length_int [OF *(2) *(1)] conv_output_length_int [OF *(3) *(1)] *(4)
    by (simp add: floor_conv)
next
  assume "0 < k \<and> 0 < s \<and> 0 < Cin \<and> 0 < Cout \<and> k \<le> H + 2 * p \<and> k \<le> W + 2 * p"
  then show "PaddedConv2D Cout k p s Wt x \<noteq> None"
    using PaddedConv2D_dims [OF assms, of k s p Cout Wt] by auto
next
  assume "Cin = 0 \<or> Cout = 0"
  then show "PaddedConv2D Cout k p s Wt x = None"
    by (rule PaddedConv2D_no_channels [OF assms])
next
  assume a: "0 < Cin \<and> 0 < Cout"
  show "map_option dims (PaddedConv2D Cout 3 1 1 Wt x) = Some [B, H, W, Cout]"
    by (rule conv3x3_dims [OF assms conjunct1 [OF a] conjunct2 [OF a]])
qed

theorem PaddedConv2D_shape_witness:
  "(\<exists>y. PaddedConv2D 5 3 1 2 zero_conv (const_tensor [2, 7, 10, 3] 1) = Some y
        \<and> dims y = [2, 4, 5, 5])
   \<and> map_option dims (PaddedConv2D 5 3 1 1 zero_conv (const_tensor [2, 7, 10, 3] 1)) = Some [2, 7, 10, 5]"
proof -
  have d: "dims (const_tensor [2, 7, 10, 3] 1) = [2, 7, 10, 3]"
    by (simp add: const_tensor_def)
  note t = PaddedConv2D_shape [OF d, of 5 3 1 2 zero_conv]
  from t obtain y where y: "PaddedConv2D 5 3 1 2 zero_conv (const_tensor [2, 7, 10, 3] 1) = Some y"
    by auto
  with t have "map int (dims y) = [2, \<lfloor>(7 + 2 * 1 - 3) / (2::real)\<rfloor> + 1, \<lfloor>(10 + 2 * 1 - 3) / (2::real)\<rfloor> + 1, 5]"
    by simp
  moreover have "\<lfloor>(7 + 2 * 1 - 3) / (2::real)\<rfloor> = 3" "\<lfloor>(10 + 2 * 1 - 3) / (2::real)\<rfloor> = 4"
    by (simp_all add: floor_eq_iff)
  ultimately have "map int (dims y) = [2, 4, 5, 5]" by simp
  then have "dims y = [2, 4, 5, 5]"
    by (auto simp add: map_eq_Cons_conv)
  with y t show ?thesis by simp
qed

text \<open>The claim as it was stated, with the spatial dimensions preserved for every input,
  fails on a \<open>(1, 2, 2, 0)\<close> input, which has no channel: the layer returns nothing.\<close>

theorem PaddedConv2D_shape_counterexample:
  "map_option dims (PaddedConv2D 2 3 1 1 zero_conv (const_tensor [1, 2, 2, 0] 0)) \<noteq> Some [1, 2, 2, 2]"
proof -
  have "dims (const_tensor [1, 2, 2, 0] 0) = [1, 2, 2, 0]"
    by (simp add: const_tensor_def)
  then have "PaddedConv2D 2 3 1 1 zero_conv (const_tensor [1, 2, 2, 0] 0) = None"
    by (rule PaddedConv2D_no_channels) simp
  then show ?thesis by simp
qed

text \<open>
  C1. For every input of shape \<open>(B, H, W, 3)\<close> with \<open>H\<close> and \<open>W\<close> divisible by 8 the
  Encoder returns a tensor of shape \<open>(B, H/8, W/8, 4)\<close>. The trace of shapes shows each of
  the three stride-2 convolutions halving both spatial dimensions, and the final slicing
  step taking the 8 channels to 4.
\<close>

theorem Encoder_shape:
  assumes "dims x = [B, H, W, 3]" "8 dvd H" "8 dvd W"
  shows "shapes (Encoder_layers \<theta>) x =
           map Some ([B, H, W, 3] # replicate 3 [B, H, W, 128]
             @ [[B, H div 2, W div 2, 128]] @ replicate 2 [B, H div 2, W div 2, 256]
             @ [[B, H div 4, W div 4, 256]] @ replicate 2 [B, H div 4, W div 4, 512]
             @ replicate 8 [B, H div 8, W div 8, 512] @ replicate 2 [B, H div 8, W div 8, 8]
             @ [[B, H div 8, W div 8, 4]])
       \<and> map_option dims (Encoder \<theta> x) = Some [B, H div 8, W div 8, 4]"
proof -
  have e: "(H div 4 + 1) div 2 = H div 8" "(W div 4 + 1) div 2 = W div 8"
    using assms(2,3) by (auto elim!: dvdE)
  have q: "(H div 2 + 1) div 2 = H div 4" "(W div 2 + 1) div 2 = W div 4"
    using assms(2,3) by (auto elim!: dvdE)
  have h: "(H + 1) div 2 = H div 2" "(W + 1) div 2 = W div 2"
    using assms(2,3) by (auto elim!: dvdE)
  have "shapes (Encoder_layers \<theta>) x =
          map Some ([B, H, W, 3] # replicate 3 [B, H, W, 128]
      @ [[B, (H + 1) div 2, (W + 1) div 2, 128]]
      @ replicate 2 [B, (H + 1) div 2, (W + 1) div 2, 256]
      @ [[B, ((H + 1) div 2 + 1) div 2, ((W + 1) div 2 + 1) div 2, 256]]
      @ replicate 2 [B, ((H + 1) div 2 + 1) div 2, ((W + 1) div 2 + 1) div 2, 512]
      @ replicate 8 [B, (((H + 1) div 2 + 1) div 2 + 1) div 2, (((W + 1) div 2 + 1) div 2 + 1) div 2, 512]
      @ replicate 2 [B, (((H + 1) div 2 + 1) div 2 + 1) div 2, (((W + 1) div 2 + 1) div 2 + 1) div 2, 8]
      @ [[B, (((H + 1) div 2 + 1) div 2 + 1) div 2, (((W + 1) div 2 + 1) div 2 + 1) div 2, 4]])"
    using Encoder_traces [of 3 \<theta> B H W, OF zero_less_numeral] assms(1) unfolding traces_def by blast
  then have 1: "shapes (Encoder_layers \<theta>) x =
           map Some ([B, H, W, 3] # replicate 3 [B, H, W, 128]
             @ [[B, H div 2, W div 2, 128]] @ replicate 2 [B, H div 2, W div 2, 256]
             @ [[B, H div 4, W div 4, 256]] @ replicate 2 [B, H div 4, W div 4, 512]
             @ replicate 8 [B, H div 8, W div 8, 512] @ replicate 2 [B, H div 8, W div 8, 8]
             @ [[B, H div 8, W div 8, 4]])"
    by (simp only: h q e)
  have "map_option dims (Encoder \<theta> x) = last (shapes (Encoder_layers \<theta>) x)"
    by (simp only: Encoder_def last_shapes)
  also have "\<dots> = Some [B, H div 8, W div 8, 4]"
    by (simp only: 1) simp
  finally show ?thesis using 1 by blast
qed

theorem Encoder_shape_witness:
  "map_option dims (Encoder example_weights (const_tensor [1, 64, 64, 3] 0)) = Some [1, 8, 8, 4]
   \<and> shapes (Encoder_layers example_weights) (const_tensor [1, 64, 64, 3] 0) ! 4
       = Some [1, 32, 32, 128]"
  using Encoder_shape [of "const_tensor [1, 64, 64, 3] 0" 1 64 64 example_weights]
  by (simp add: const_tensor_def unfold_replicate)

text \<open>
  C2, as amended. For every input of shape \<open>(B, H, W, 4)\<close> with \<open>H\<close> and \<open>W\<close> positive the
  Decoder returns a tensor of shape \<open>(B, 8H, 8W, 3)\<close>. The trace of shapes shows each of the
  three upsampling layers doubling both spatial dimensions, no layer reducing them, and the
  last convolution producing 3 channels. A latent of height or width zero is rejected by
  the first upsampling layer.
\<close>

theorem Decoder_shape:
  assumes "dims x = [B, H, W, 4]"
  shows "(0 < H \<and> 0 < W \<longrightarrow>
           shapes (Decoder_layers \<theta>) x =
             map Some (replicate 3 [B, H, W, 4] @ replicate 7 [B, H, W, 512]
               @ replicate 5 [B, 2 * H, 2 * W, 512]
               @ replicate 2 [B, 4 * H, 4 * W, 512] @ replicate 3 [B, 4 * H, 4 * W, 256]
               @ replicate 2 [B, 8 * H, 8 * W, 256] @ replicate 5 [B, 8 * H, 8 * W, 128]
               @ [[B, 8 * H, 8 * W, 3]])
           \<and> map_option dims (Decoder \<theta> x) = Some [B, 8 * H, 8 * W, 3])
       \<and> (H = 0 \<or> W = 0 \<longrightarrow> Decoder \<theta> x = None)"
proof -
  have m: "H * 2 = 2 * H" "W * 2 = 2 * W" "2 * H * 2 = 4 * H" "2 * W * 2 = 4 * W"
      "4 * H * 2 = 8 * H" "4 * W * 2 = 8 * W"
    by simp_all
  have "shapes (Decoder_layers \<theta>) x = map Some ([B, H, W, 4] #
     ([[B, H, W, 4], [B, H, W, 4]] @ replicate 7 [B, H, W, 512]
      @ replicate 5 [B, H * 2, W * 2, 512]
      @ replicate 2 [B, H * 2 * 2, W * 2 * 2, 512] @ replicate 3 [B, H * 2 * 2, W * 2 * 2, 256]
      @ replicate 2 [B, H * 2 * 2 * 2, W * 2 * 2 * 2, 256]
      @ replicate 5 [B, H * 2 * 2 * 2, W * 2 * 2 * 2, 128]
      @ [[B, H * 2 * 2 * 2, W * 2 * 2 * 2, 3]]))"
    if "0 < H \<and> 0 < W"
    using Decoder_traces [of H W \<theta> B, OF conjunct1 [OF that] conjunct2 [OF that]] assms
    unfolding traces_def by blast
  then have 1: "shapes (Decoder_layers \<theta>) x =
           map Some (replicate 3 [B, H, W, 4] @ replicate 7 [B, H, W, 512]
             @ replicate 5 [B, 2 * H, 2 * W, 512]
             @ replicate 2 [B, 4 * H, 4 * W, 512] @ replicate 3 [B, 4 * H, 4 * W, 256]
             @ replicate 2 [B, 8 * H, 8 * W, 256] @ replicate 5 [B, 8 * H, 8 * W, 128]
             @ [[B, 8 * H, 8 * W, 3]])"
    if "0 < H \<and> 0 < W"
    using that by (simp only: m unfold_replicate)
  have l: "map_option dims (Decoder \<theta> x) = last (shapes (Decoder_layers \<theta>) x)"
    by (simp only: Decoder_def last_shapes)
  have 2: "map_option dims (Decoder \<theta> x) = Some [B, 8 * H, 8 * W, 3]" if "0 < H \<and> 0 < W"
    unfolding l by (simp only: 1 [OF that]) simp
  have 3: "Decoder \<theta> x = None" if "H = 0 \<or> W = 0"
    using assms that by (rule Decoder_empty_image)
  show ?thesis
  proof (intro conjI impI)
    assume p: "0 < H \<and> 0 < W"
    show "shapes (Decoder_layers \<theta>) x =
             map Some (replicate 3 [B, H, W, 4] @ replicate 7 [B, H, W, 512]
               @ replicate 5 [B, 2 * H, 2 * W, 512]
               @ replicate 2 [B, 4 * H, 4 * W, 512] @ replicate 3 [B, 4 * H, 4 * W, 256]
               @ replicate 2 [B, 8 * H, 8 * W, 256] @ replicate 5 [B, 8 * H, 8 * W, 128]
               @ [[B, 8 * H, 8 * W, 3]])"
      by (rule 1 [OF p])
    show "map_option dims (Decoder \<theta> x) = Some [B, 8 * H, 8 * W, 3]"
      by (rule 2 [OF p])
  next
    assume "H = 0 \<or> W = 0"
    then show "Decoder \<theta> x = None" by (rule 3)
  qed
qed

theorem Decoder_shape_witness:
  "map_option dims (Decoder example_weights (const_tensor [1, 8, 8, 4] 0)) = Some [1, 64, 64, 3]
   \<and> shapes (Decoder_layers example_weights) (const_tensor [1, 8, 8, 4] 0) ! 10
       = Some [1, 16, 16, 512]
   \<and> Decoder example_weights (const_tensor [1, 8, 0, 4] 0) = None"
proof -
  have "dims (const_tensor [1, 8, 0, 4] 0) = [1, 8, 0, 4]"
    by (simp add: const_tensor_def)
  from Decoder_shape [OF this, of example_weights]
  have "Decoder example_weights (const_tensor [1, 8, 0, 4] 0) = None" by simp
  then show ?thesis
    using Decoder_shape [of "const_tensor [1, 8, 8, 4] 0" 1 8 8 example_weights]
    by (simp add: const_tensor_def unfold_replicate)
qed

text \<open>The claim as it was stated, for every input of shape \<open>(B, H, W, 4)\<close>, fails on a
  \<open>(1, 0, 2, 4)\<close> latent: the Decoder returns nothing.\<close>

theorem Decoder_shape_counterexample:
  "map_option dims (Decoder example_weights (const_tensor [1, 0, 2, 4] 0)) \<noteq> Some [1, 0, 16, 3]"
proof -
  have "dims (const_tensor [1, 0, 2, 4] 0) = [1, 0, 2, 4]"
    by (simp add: const_tensor_def)
  then have "Decoder example_weights (const_tensor [1, 0, 2, 4] 0) = None"
    by (rule Decoder_empty_image) simp
  then show ?thesis by simp
qed

text \<open>
  C7, as amended. For every input \<open>x\<close> of shape \<open>(B, H, W, 3)\<close> with \<open>H\<close> and \<open>W\<close> positive
  and divisible by 8, the Decoder applied to the Encoder's output returns a tensor of the
  shape of \<open>x\<close>; nothing is said about its values. For an image of height or width zero
  the Encoder returns an empty latent and the Decoder rejects it.
\<close>

theorem round_trip_shape:
  assumes "dims x = [B, H, W, 3]" "8 dvd H" "8 dvd W"
  shows "(0 < H \<and> 0 < W \<longrightarrow> map_option dims (Encoder \<theta>e x \<bind> Decoder \<theta>d) = Some (dims x))
       \<and> (H = 0 \<or> W = 0 \<longrightarrow> Encoder \<theta>e x \<bind> Decoder \<theta>d = None)"
proof -
  have "map_option dims (Encoder \<theta>e x)
          = Some [B, (((H + 1) div 2 + 1) div 2 + 1) div 2, (((W + 1) div 2 + 1) div 2 + 1) div 2, 4]"
    using maps_shapeD [OF Encoder_maps assms(1)] by simp
  then have "map_option dims (Encoder \<theta>e x) = Some [B, H div 8, W div 8, 4]"
    by (simp only: eighth [OF assms(2)] eighth [OF assms(3)])
  then obtain z where z: "Encoder \<theta>e x = Some z" "dims z = [B, H div 8, W div 8, 4]"
    by (rule dims_resultE)
  show ?thesis
  proof (intro conjI impI)
    assume pos: "0 < H \<and> 0 < W"
    then have "0 < H div 8" "0 < W div 8"
      using assms(2,3) by (auto elim!: dvdE)
    then have "map_option dims (Decoder \<theta>d z) = Some [B, H div 8 * 2 * 2 * 2, W div 8 * 2 * 2 * 2, 3]"
      using maps_shapeD [OF Decoder_maps z(2)] by blast
    moreover have "H div 8 * 2 * 2 * 2 = H" "W div 8 * 2 * 2 * 2 = W"
      using assms(2,3) by auto
    ultimately show "map_option dims (Encoder \<theta>e x \<bind> Decoder \<theta>d) = Some (dims x)"
      using z(1) assms(1) by simp
  next
    assume "H = 0 \<or> W = 0"
    then have "H div 8 = 0 \<or> W div 8 = 0" by auto
    with z(2) have "Decoder \<theta>d z = None" by (rule Decoder_empty_image)
    with z(1) show "Encoder \<theta>e x \<bind> Decoder \<theta>d = None" by simp
  qed
qed

theorem round_trip_shape_witness:
  "map_option dims (Encoder example_weights (const_tensor [2, 16, 8, 3] 1) \<bind> Decoder example_weights)
     = Some [2, 16, 8, 3]
   \<and> Encoder example_weights (const_tensor [2, 16, 0, 3] 1) \<bind> Decoder example_weights = None"
  using round_trip_shape [of "const_tensor [2, 16, 8, 3] 1" 2 16 8 example_weights example_weights]
    round_trip_shape [of "const_tensor [2, 16, 0, 3] 1" 2 16 0 example_weights example_weights]
  by (simp add: const_tensor_def)

text \<open>The claim as it was stated, for every \<open>H\<close> and \<open>W\<close> divisible by 8, fails on a
  \<open>(1, 0, 8, 3)\<close> image: the round trip returns nothing.\<close>

theorem round_trip_shape_counterexample:
  "map_option dims (Encoder example_weights (const_tensor [1, 0, 8, 3] 0) \<bind> Decoder example_weights)
     \<noteq> Some [1, 0, 8, 3]"
proof -
  have "map_option dims (Encoder example_weights (const_tensor [1, 0, 8, 3] 0))
          = Some [1, (((0 + 1) div 2 + 1) div 2 + 1) div 2, (((8 + 1) div 2 + 1) div 2 + 1) div 2, 4]"
    by (rule maps_shapeD [OF Encoder_maps]) (simp_all add: const_tensor_def)
  then obtain z where z: "Encoder example_weights (const_tensor [1, 0, 8, 3] 0) = Some z"
      "dims z = [1, 0, 1, 4]"
    by (auto elim: dims_resultE)
  from z(2) have "Decoder example_weights z = None"
    by (rule Decoder_empty_image) simp
  with z(1) show ?thesis by simp
qed

text \<open>
  C6, as amended. The Decoder's second layer, the 1x1 convolution after the rescale, maps
  the 4-channel latent to 4 channels; it is the third layer, the 3x3 convolution, that
  maps these 4 channels to 512.
\<close>

theorem Decoder_post_quant_shape:
  assumes "dims x = [B, H, W, 4]"
  shows "map_option dims (Sequential (take 2 (Decoder_layers \<theta>)) x) = Some [B, H, W, 4]
       \<and> map_option dims (Sequential (take 3 (Decoder_layers \<theta>)) x) = Some [B, H, W, 512]"
proof -
  have "maps_shape (Sequential (take 2 (Decoder_layers \<theta>))) [B, H, W, 4] [B, H, W, 4]"
    unfolding Decoder_take2 by (rule maps_shape_Cons maps_shape_Nil maps_layer | simp)+
  moreover have "maps_shape (Sequential (take 3 (Decoder_layers \<theta>))) [B, H, W, 4] [B, H, W, 512]"
    unfolding Decoder_take3 by (rule maps_shape_Cons maps_shape_Nil maps_layer | simp)+
  ultimately show ?thesis
    using assms unfolding maps_shape_def by blast
qed

theorem Decoder_post_quant_shape_witness:
  "map_option dims (Sequential (take 2 (Decoder_layers example_weights)) (const_tensor [1, 2, 2, 4] 0))
     = Some [1, 2, 2, 4]
   \<and> map_option dims (Sequential (take 3 (Decoder_layers example_weights)) (const_tensor [1, 2, 2, 4] 0))
     = Some [1, 2, 2, 512]"
  using Decoder_post_quant_shape [of "const_tensor [1, 2, 2, 4] 0" 1 2 2 example_weights]
  by (simp add: const_tensor_def)

text \<open>The claim as it was stated, with 512 channels after the second layer, fails on a
  \<open>(1, 2, 2, 4)\<close> latent.\<close>

theorem Decoder_post_quant_counterexample:
  "map_option dims (Sequential (take 2 (Decoder_layers example_weights)) (const_tensor [1, 2, 2, 4] 0))
     \<noteq> Some [1, 2, 2, 512]"
proof -
  have "maps_shape (Sequential (take 2 (Decoder_layers example_weights))) [1, 2, 2, 4] [1, 2, 2, 4]"
    unfolding Decoder_take2 by (rule maps_shape_Cons maps_shape_Nil maps_layer | simp)+
  then have "map_option dims (Sequential (take 2 (Decoder_layers example_weights))
               (const_tensor [1, 2, 2, 4] 0)) = Some [1, 2, 2, 4]"
    by (simp add: maps_shape_def const_tensor_def)
  then show ?thesis by auto
qed

text \<open>
  C9. Each of PaddedConv2D, AttentionBlock, ResnetBlock, Encoder and Decoder preserves the
  batch dimension: on an input of shape \<open>(B, H, W, C)\<close>, whatever it returns is a rank-4
  tensor with the same leading size \<open>B\<close>.
\<close>

theorem batch_dimension_preserved:
  assumes "dims x = [B, H, W, C]"
  shows "(\<forall>y. PaddedConv2D ch k p s Wc x = Some y \<longrightarrow> (\<exists>H' W' C'. dims y = [B, H', W', C']))
       \<and> (\<forall>y. AttentionBlock ca Wa x = Some y \<longrightarrow> (\<exists>H' W' C'. dims y = [B, H', W', C']))
       \<and> (\<forall>y. ResnetBlock ci co Wr x = Some y \<longrightarrow> (\<exists>H' W' C'. dims y = [B, H', W', C']))
       \<and> (\<forall>y. Encoder \<theta> x = Some y \<longrightarrow> (\<exists>H' W' C'. dims y = [B, H', W', C']))
       \<and> (\<forall>y. Decoder \<theta> x = Some y \<longrightarrow> (\<exists>H' W' C'. dims y = [B, H', W', C']))"
proof (intro conjI)
  show "\<forall>y. PaddedConv2D ch k p s Wc x = Some y \<longrightarrow> (\<exists>H' W' C'. dims y = [B, H', W', C'])"
    using assms keeps_batch_PaddedConv2D [of ch k p s Wc] unfolding keeps_batch_def by blast
  show "\<forall>y. AttentionBlock ca Wa x = Some y \<longrightarrow> (\<exists>H' W' C'. dims y = [B, H', W', C'])"
    using assms keeps_batch_AttentionBlock [of ca Wa] unfolding keeps_batch_def by blast
  show "\<forall>y. ResnetBlock ci co Wr x = Some y \<longrightarrow> (\<exists>H' W' C'. dims y = [B, H', W', C'])"
    using assms keeps_batch_ResnetBlock [of ci co Wr] unfolding keeps_batch_def by blast
  show "\<forall>y. Encoder \<theta> x = Some y \<longrightarrow> (\<exists>H' W' C'. dims y = [B, H', W', C'])"
    using assms keeps_batch_Encoder [of \<theta>] unfolding keeps_batch_def by blast
  show "\<forall>y. Decoder \<theta> x = Some y \<longrightarrow> (\<exists>H' W' C'. dims y = [B, H', W', C'])"
    using assms keeps_batch_Decoder [of \<theta>] unfolding keeps_batch_def by blast
qed

theorem batch_dimension_preserved_witness:
  "(\<exists>y. PaddedConv2D 8 3 1 2 zero_conv (const_tensor [5, 8, 16, 32] 1) = Some y \<and> hd (dims y) = 5)
   \<and> (\<exists>y. AttentionBlock 32 example_attention (const_tensor [5, 8, 16, 32] 1) = Some y \<and> hd (dims y) = 5)
   \<and> (\<exists>y. ResnetBlock 32 64 example_resnet (const_tensor [5, 8, 16, 32] 1) = Some y \<and> hd (dims y) = 5)
   \<and> (\<exists>y. Encoder example_weights (const_tensor [5, 8, 16, 32] 1) = Some y \<and> hd (dims y) = 5)
   \<and> (\<exists>y. Decoder example_weights (const_tensor [5, 2, 3, 4] 1) = Some y \<and> hd (dims y) = 5)"
proof -
  let ?x = "const_tensor [5, 8, 16, 32] 1"
  have d: "dims ?x = [5, 8, 16, 32]"
    by (simp add: const_tensor_def)
  note t = batch_dimension_preserved [OF d, of 8 3 1 2 zero_conv 32 example_attention 32 64
      example_resnet example_weights]
  obtain y1 where y1: "PaddedConv2D 8 3 1 2 zero_conv ?x = Some y1"
    using conv3x3_stride2_dims [OF d, of 8 zero_conv] by (auto elim: dims_resultE)
  obtain y2 where y2: "AttentionBlock 32 example_attention ?x = Some y2"
    using AttentionBlock_dims [OF d, of example_attention] by (auto elim: dims_resultE)
  obtain y3 where y3: "ResnetBlock 32 64 example_resnet ?x = Some y3"
    using ResnetBlock_dims [OF d, of 64 32 example_resnet] by (auto elim: dims_resultE)
  obtain y4 where y4: "Encoder example_weights ?x = Some y4"
    using maps_shapeD [OF Encoder_maps d, of example_weights] by (auto elim: dims_resultE)
  let ?z = "const_tensor [5, 2, 3, 4] 1"
  have dz: "dims ?z = [5, 2, 3, 4]"
    by (simp add: const_tensor_def)
  note t' = batch_dimension_preserved [OF dz, of 8 3 1 2 zero_conv 32 example_attention 32 64
      example_resnet example_weights]
  obtain y5 where y5: "Decoder example_weights ?z = Some y5"
    using maps_shapeD [OF Decoder_maps dz, of example_weights] by (auto elim: dims_resultE)
  from t y1 y2 y3 y4 have "(\<exists>y. PaddedConv2D 8 3 1 2 zero_conv ?x = Some y \<and> hd (dims y) = 5)"
      "(\<exists>y. AttentionBlock 32 example_attention ?x = Some y \<and> hd (dims y) = 5)"
      "(\<exists>y. ResnetBlock 32 64 example_resnet ?x = Some y \<and> hd (dims y) = 5)"
      "(\<exists>y. Encoder example_weights ?x = Some y \<and> hd (dims y) = 5)"
    by fastforce+
  moreover from t' y5 have "(\<exists>y. Decoder example_weights ?z = Some y \<and> hd (dims y) = 5)"
    by fastforce
  ultimately show ?thesis by blast
qed

section \<open>The values computed\<close>

text \<open>
  C5. For every 8-channel tensor \<open>x\<close>, the Encoder's final layer returns the first 4
  channels of \<open>x\<close> multiplied by 0.18215, the Decoder's first layer multiplies its input by
  1/0.18215, and the Decoder's rescale applied to the Encoder's rescaled output gives back
  the first four channels of \<open>x\<close> exactly, in exact (real) arithmetic.
\<close>

theorem latent_scaling_cancels:
  assumes "dims x = [B, H, W, 8]"
  shows "\<exists>y z. last (Encoder_layers \<theta>) x = Some y \<and> hd (Decoder_layers \<theta>') y = Some z
           \<and> dims y = [B, H, W, 4] \<and> dims z = [B, H, W, 4]
           \<and> (\<forall>n<B. \<forall>i<H. \<forall>j<W. \<forall>c<4.
                 elem y [n, i, j, c] = elem x [n, i, j, c] * 0.18215
               \<and> elem z [n, i, j, c] = 1 / 0.18215 * elem y [n, i, j, c]
               \<and> elem z [n, i, j, c] = elem x [n, i, j, c])"
proof -
  define y where "y = mk [B, H, W, 4] (\<lambda>is. elem x is * 0.18215)"
  define z where "z = map_vals (\<lambda>e. 1 / 0.18215 * e) y"
  have y: "last (Encoder_layers \<theta>) x = Some y"
    using assms by (simp add: last_Encoder_layers encoder_lambda_8 y_def)
  have z: "hd (Decoder_layers \<theta>') y = Some z"
    by (simp add: hd_Decoder_layers decoder_lambda_def z_def)
  have dy: "dims y = [B, H, W, 4]" by (simp add: y_def)
  have dz: "dims z = [B, H, W, 4]" by (simp add: z_def dy)
  have wy: "well_shaped y" by (simp add: y_def)
  have e1: "elem y [n, i, j, c] = elem x [n, i, j, c] * 0.18215"
    if "n < B" "i < H" "j < W" "c < 4" for n i j c
  proof -
    have "list_all2 (<) [n, i, j, c] [B, H, W, 4]" using that by simp
    then show ?thesis unfolding y_def by (rule elem_mk)
  qed
  have e2: "elem z [n, i, j, c] = 1 / 0.18215 * elem y [n, i, j, c]"
    if "n < B" "i < H" "j < W" "c < 4" for n i j c
  proof -
    have "list_all2 (<) [n, i, j, c] (dims y)" using that by (simp add: dy)
    then show ?thesis unfolding z_def by (rule elem_map_vals [OF wy])
  qed
  have e3: "elem z [n, i, j, c] = elem x [n, i, j, c]"
    if "n < B" "i < H" "j < W" "c < 4" for n i j c
    using e1 [OF that] e2 [OF that] by simp
  show ?thesis
  proof (intro exI conjI allI impI)
    show "last (Encoder_layers \<theta>) x = Some y" by (rule y)
    show "hd (Decoder_layers \<theta>') y = Some z" by (rule z)
    show "dims y = [B, H, W, 4]" by (rule dy)
    show "dims z = [B, H, W, 4]" by (rule dz)
  next
    fix n i j c assume *: "n < B" "i < H" "j < W" "c < (4::nat)"
    show "elem y [n, i, j, c] = elem x [n, i, j, c] * 0.18215" by (rule e1 [OF *])
    show "elem z [n, i, j, c] = 1 / 0.18215 * elem y [n, i, j, c]" by (rule e2 [OF *])
    show "elem z [n, i, j, c] = elem x [n, i, j, c]" by (rule e3 [OF *])
  qed
qed

theorem latent_scaling_cancels_witness:
  "\<exists>y z. last (Encoder_layers example_weights) (const_tensor [1, 1, 1, 8] 2) = Some y
         \<and> hd (Decoder_layers example_weights) y = Some z
         \<and> elem y [0, 0, 0, 3] = 2 * 0.18215 \<and> elem z [0, 0, 0, 3] = 2"
proof -
  have d: "dims (const_tensor [1, 1, 1, 8] 2) = [1, 1, 1, 8]"
    by (simp add: const_tensor_def)
  have e: "elem (const_tensor [1, 1, 1, 8] 2) [0, 0, 0, 3] = 2"
    by (simp add: const_tensor_def elem_mk)
  from latent_scaling_cancels [OF d, of example_weights example_weights]
  obtain y z where yz: "last (Encoder_layers example_weights) (const_tensor [1, 1, 1, 8] 2) = Some y"
      "hd (Decoder_layers example_weights) y = Some z"
    and el: "\<forall>n<1. \<forall>i<1. \<forall>j<1. \<forall>c<4.
                 elem y [n, i, j, c] = elem (const_tensor [1, 1, 1, 8] 2) [n, i, j, c] * 0.18215
               \<and> elem z [n, i, j, c] = 1 / 0.18215 * elem y [n, i, j, c]
               \<and> elem z [n, i, j, c] = elem (const_tensor [1, 1, 1, 8] 2) [n, i, j, c]"
    by (elim exE conjE)
  from el [rule_format, of 0 0 0 3] e
  have "elem y [0, 0, 0, 3] = 2 * 0.18215 \<and> elem z [0, 0, 0, 3] = 2"
    by simp
  with yz show ?thesis by (intro exI [of _ y] exI [of _ z]) simp
qed


text \<open>
  C4. ResnetBlock computes normalize, swish, 3x3 convolution (padding 1), normalize, swish,
  3x3 convolution (padding 1) and adds a shortcut path. The shortcut is the identity
  function exactly when the declared \<open>in_channels\<close> equals \<open>out_channels\<close>, and otherwise
  the 1x1 convolution to \<open>out_channels\<close>; it is chosen from the two declared numbers alone.
  On every input of \<open>c\<close> channels that the normalizations accept (\<open>c\<close> and \<open>out_channels\<close>
  multiples of 32, and \<open>c = out_channels\<close> when the shortcut is the identity) the block
  returns a tensor of the input's batch size, height and width with \<open>out_channels\<close>
  channels, and each of its entries is the value that \<open>ResnetBlock_spec\<close> gives: the
  shortcut's value plus the value of the second convolution. With the second convolution
  zeroed the block returns its input when the two declared numbers are equal, and the 1x1
  convolution of its input when they differ.
\<close>

theorem ResnetBlock_shortcut:
  "(nin_shortcut cin cout Wn = Some \<longleftrightarrow> cin = cout)
   \<and> (cin \<noteq> cout \<longrightarrow> nin_shortcut cin cout Wn = PaddedConv2D cout 1 0 1 Wn)
   \<and> (dims x = [b, h, w, c] \<and> 32 \<le> c \<and> 32 dvd c \<and> 32 \<le> cout \<and> 32 dvd cout
        \<and> (cin = cout \<longrightarrow> c = cout)
        \<longrightarrow> (\<exists>y. ResnetBlock cin cout W x = Some y \<and> dims y = [b, h, w, cout]
               \<and> (\<forall>n<b. \<forall>i<h. \<forall>j<w. \<forall>co<cout.
                     elem y [n, i, j, co]
                       = ResnetBlock_spec cin cout W h w c (values_of x) n i j co)))
   \<and> (well_shaped x \<and> dims x = [b, h, w, cout] \<and> 32 \<le> cout \<and> 32 dvd cout \<and> conv2 W = zero_conv
        \<longrightarrow> ResnetBlock cout cout W x = Some x)
   \<and> (dims x = [b, h, w, c] \<and> 32 \<le> c \<and> 32 dvd c \<and> 32 \<le> cout \<and> 32 dvd cout
        \<and> cin \<noteq> cout \<and> conv2 W = zero_conv
        \<longrightarrow> ResnetBlock cin cout W x = PaddedConv2D cout 1 0 1 (nin W) x)"
proof (intro conjI impI)
  show "nin_shortcut cin cout Wn = Some \<longleftrightarrow> cin = cout"
  proof
    assume a: "nin_shortcut cin cout Wn = Some"
    show "cin = cout"
    proof (rule ccontr)
      assume "cin \<noteq> cout"
      then have "nin_shortcut cin cout Wn \<lparr>dims = [], vals = []\<rparr> = None"
        by (simp add: nin_shortcut_def PaddedConv2D_rank)
      with a show False by simp
    qed
  next
    assume "cin = cout"
    then show "nin_shortcut cin cout Wn = Some"
      by (simp add: nin_shortcut_def)
  qed
next
  assume "cin \<noteq> cout"
  then show "nin_shortcut cin cout Wn = PaddedConv2D cout 1 0 1 Wn"
    by (simp add: nin_shortcut_def)
next
  assume a: "dims x = [b, h, w, c] \<and> 32 \<le> c \<and> 32 dvd c \<and> 32 \<le> cout \<and> 32 dvd cout
        \<and> (cin = cout \<longrightarrow> c = cout)"
  then have x: "dims x = [b, h, w, c]" and c: "32 \<le> c" "32 dvd c"
    and co: "32 \<le> cout" "32 dvd cout" and same: "cin = cout \<longrightarrow> c = cout"
    by simp_all
  obtain y where y: "ResnetBlock cin cout W x = Some y"
      "has_values y b h w cout (ResnetBlock_spec cin cout W h w c (values_of x))"
    using ResnetBlock_values [OF x c co same, of W] by (elim exE conjE)
  show "\<exists>y. ResnetBlock cin cout W x = Some y \<and> dims y = [b, h, w, cout]
               \<and> (\<forall>n<b. \<forall>i<h. \<forall>j<w. \<forall>co<cout.
                     elem y [n, i, j, co]
                       = ResnetBlock_spec cin cout W h w c (values_of x) n i j co)"
    using y by (simp add: has_values_def)
next
  assume a: "well_shaped x \<and> dims x = [b, h, w, cout] \<and> 32 \<le> cout \<and> 32 dvd cout \<and> conv2 W = zero_conv"
  then have x: "dims x = [b, h, w, cout]" and co: "32 \<le> cout" "32 dvd cout"
    and z: "conv2 W = zero_conv"
    by simp_all
  have "ResnetBlock cout cout W x
      = nin_shortcut cout cout (nin W) x \<bind> (\<lambda>s. tf_add s (mk [b, h, w, cout] (\<lambda>is. 0)))"
    using x co co z by (rule ResnetBlock_zero_branch)
  also have "\<dots> = tf_add x (mk [b, h, w, cout] (\<lambda>is. 0))"
    by (simp add: nin_shortcut_def)
  also have "\<dots> = Some x"
    using a by (intro tf_add_zero) simp_all
  finally show "ResnetBlock cout cout W x = Some x" .
next
  assume a: "dims x = [b, h, w, c] \<and> 32 \<le> c \<and> 32 dvd c \<and> 32 \<le> cout \<and> 32 dvd cout
        \<and> cin \<noteq> cout \<and> conv2 W = zero_conv"
  then have x: "dims x = [b, h, w, c]" and c: "32 \<le> c" "32 dvd c"
    and co: "32 \<le> cout" "32 dvd cout" and ne: "cin \<noteq> cout" and z: "conv2 W = zero_conv"
    by simp_all
  obtain s where s: "PaddedConv2D cout 1 0 1 (nin W) x = Some s" "dims s = [b, h, w, cout]"
    using conv1x1_dims [OF x pos32 [OF c(1)] pos32 [OF co(1)], of "nin W"] by (rule dims_resultE)
  have ws: "well_shaped s" using s(1) by (rule PaddedConv2D_well_shaped)
  have "ResnetBlock cin cout W x
      = nin_shortcut cin cout (nin W) x \<bind> (\<lambda>s. tf_add s (mk [b, h, w, cout] (\<lambda>is. 0)))"
    using x c co z by (rule ResnetBlock_zero_branch)
  also have "\<dots> = tf_add s (mk [b, h, w, cout] (\<lambda>is. 0))"
    using ne s(1) by (simp add: nin_shortcut_def)
  also have "\<dots> = Some s"
    using ws s(2) by (rule tf_add_zero)
  finally show "ResnetBlock cin cout W x = PaddedConv2D cout 1 0 1 (nin W) x"
    using s(1) by simp
qed

theorem ResnetBlock_shortcut_witness:
  "nin_shortcut 32 32 zero_conv = Some
   \<and> nin_shortcut 32 64 zero_conv = PaddedConv2D 64 1 0 1 zero_conv
   \<and> (\<exists>y. ResnetBlock 32 32 (example_resnet\<lparr>conv2 := bias_conv 1\<rparr>) (const_tensor [1, 2, 2, 32] 3) = Some y
          \<and> dims y = [1, 2, 2, 32] \<and> elem y [0, 1, 1, 5] = 4)
   \<and> (\<exists>y. ResnetBlock 32 64 (example_resnet\<lparr>conv2 := bias_conv 1, nin := bias_conv 5\<rparr>)
            (const_tensor [1, 2, 2, 32] 3) = Some y
          \<and> dims y = [1, 2, 2, 64] \<and> elem y [0, 1, 1, 40] = 6)
   \<and> ResnetBlock 32 32 example_resnet (const_tensor [1, 2, 2, 32] 3) = Some (const_tensor [1, 2, 2, 32] 3)
   \<and> ResnetBlock 32 64 example_resnet (const_tensor [1, 2, 2, 32] 3)
       = PaddedConv2D 64 1 0 1 zero_conv (const_tensor [1, 2, 2, 32] 3)"
proof -
  let ?x = "const_tensor [1, 2, 2, 32] 3"
  let ?W1 = "example_resnet\<lparr>conv2 := bias_conv 1\<rparr>"
  let ?W2 = "example_resnet\<lparr>conv2 := bias_conv 1, nin := bias_conv 5\<rparr>"
  have w: "well_shaped ?x" and d: "dims ?x = [1, 2, 2, 32]"
    by (simp_all add: const_tensor_def)
  have z: "conv2 example_resnet = zero_conv" "nin example_resnet = zero_conv"
    by (simp_all add: example_resnet_def)
  note t1 = ResnetBlock_shortcut [of 32 32 zero_conv ?x 1 2 2 32 example_resnet]
  note t2 = ResnetBlock_shortcut [of 32 64 zero_conv ?x 1 2 2 32 example_resnet]
  note t3 = ResnetBlock_shortcut [of 32 32 zero_conv ?x 1 2 2 32 ?W1]
  note t4 = ResnetBlock_shortcut [of 32 64 zero_conv ?x 1 2 2 32 ?W2]
  have 1: "nin_shortcut 32 32 zero_conv = Some"
    using t1 [THEN conjunct1] by simp
  have 2: "nin_shortcut 32 64 zero_conv = PaddedConv2D 64 1 0 1 zero_conv"
    using t2 [THEN conjunct2, THEN conjunct1] by simp
  have "\<exists>y. ResnetBlock 32 32 ?W1 ?x = Some y \<and> dims y = [1, 2, 2, 32]
           \<and> (\<forall>n<1. \<forall>i<2. \<forall>j<2. \<forall>co<32.
                 elem y [n, i, j, co] = ResnetBlock_spec 32 32 ?W1 2 2 32 (values_of ?x) n i j co)"
    using t3 [THEN conjunct2, THEN conjunct2, THEN conjunct1] d by simp
  then obtain y where y: "ResnetBlock 32 32 ?W1 ?x = Some y" "dims y = [1, 2, 2, 32]"
      "\<forall>n<1. \<forall>i<2. \<forall>j<2. \<forall>co<32.
           elem y [n, i, j, co] = ResnetBlock_spec 32 32 ?W1 2 2 32 (values_of ?x) n i j co"
    by (elim exE conjE)
  have "elem y [0, 1, 1, 5] = ResnetBlock_spec 32 32 ?W1 2 2 32 (values_of ?x) 0 1 1 5"
    using y(3) [rule_format, of 0 1 1 5] by simp
  also have "\<dots> = 4"
    by (simp add: ResnetBlock_spec_def Let_def conv_spec_bias values_of_const)
  finally have 3: "\<exists>y. ResnetBlock 32 32 ?W1 ?x = Some y \<and> dims y = [1, 2, 2, 32]
      \<and> elem y [0, 1, 1, 5] = 4"
    using y(1,2) by simp
  have "\<exists>y. ResnetBlock 32 64 ?W2 ?x = Some y \<and> dims y = [1, 2, 2, 64]
           \<and> (\<forall>n<1. \<forall>i<2. \<forall>j<2. \<forall>co<64.
                 elem y [n, i, j, co] = ResnetBlock_spec 32 64 ?W2 2 2 32 (values_of ?x) n i j co)"
    using t4 [THEN conjunct2, THEN conjunct2, THEN conjunct1] d by simp
  then obtain y' where y': "ResnetBlock 32 64 ?W2 ?x = Some y'" "dims y' = [1, 2, 2, 64]"
      "\<forall>n<1. \<forall>i<2. \<forall>j<2. \<forall>co<64.
           elem y' [n, i, j, co] = ResnetBlock_spec 32 64 ?W2 2 2 32 (values_of ?x) n i j co"
    by (elim exE conjE)
  have "elem y' [0, 1, 1, 40] = ResnetBlock_spec 32 64 ?W2 2 2 32 (values_of ?x) 0 1 1 40"
    using y'(3) [rule_format, of 0 1 1 40] by simp
  also have "\<dots> = 6"
    by (simp add: ResnetBlock_spec_def Let_def conv_spec_bias conv1x1_spec_bias)
  finally have 4: "\<exists>y. ResnetBlock 32 64 ?W2 ?x = Some y \<and> dims y = [1, 2, 2, 64]
      \<and> elem y [0, 1, 1, 40] = 6"
    using y'(1,2) by simp
  have 5: "ResnetBlock 32 32 example_resnet ?x = Some ?x"
    using t1 [THEN conjunct2, THEN conjunct2, THEN conjunct2, THEN conjunct1] w d z by simp
  have 6: "ResnetBlock 32 64 example_resnet ?x = PaddedConv2D 64 1 0 1 zero_conv ?x"
    using t2 [THEN conjunct2, THEN conjunct2, THEN conjunct2, THEN conjunct2] d z by simp
  show ?thesis
    by (intro conjI) (rule 1 2 3 4 5 6)+
qed



end
